theory Spec2Isabelle
  imports Main "HOL-Library.Word" "HOL-Library.Sublist"
begin

section \<open>The syntax tree read by the code generator\<close>

text \<open>
  The code generator of \<^verbatim>\<open>src/seam/code_generation/code_generation.cpp\<close> reads a resolved
  syntax tree. The headers that declare the tree are not part of the sources at hand, so
  the node kinds below are the ones the visitor has an overload for, with the fields the
  visitor reads. The constructors \<open>other_tag\<close>, \<open>other_lexeme\<close> and \<open>other_number\<close>
  stand for every value that reaches the \<^verbatim>\<open>default\<close> label of a \<^verbatim>\<open>switch\<close> or the last
  \<^verbatim>\<open>else\<close> of a variant dispatch. Three names of the source end in an underscore, which
  a constant here cannot: \<^verbatim>\<open>void_\<close> and \<^verbatim>\<open>bool_\<close> are \<open>void_tag\<close> and \<open>bool_tag\<close>, the
  field \<^verbatim>\<open>type_\<close> of a variable is \<open>var_type\<close>, and the statement \<^verbatim>\<open>expression_\<close> is
  \<open>expression_stat\<close>. The module's member \<^verbatim>\<open>functions\<close> is \<open>module_functions\<close>.
\<close>

type_synonym position = "nat \<times> nat"

datatype built_in_type =
  void_tag | bool_tag | u8 | i8 | u16 | i16 | u32 | i32 | u64 | i64 | string | f32 | f64
| other_tag

datatype ast_type = built_in built_in_type | class_type string

record variable =
  var_id :: nat
  var_name :: string
  var_type :: ast_type

record function_signature =
  name :: string
  mangled_name :: string
  parameters :: "variable list"
  return_type :: ast_type
  is_extern :: bool
  attributes :: "string set"

datatype lexeme_type =
  symbol_add | symbol_minus | symbol_multiply | symbol_divide
| symbol_eq | symbol_neq | symbol_lt | symbol_lteq | symbol_gt | symbol_gteq
| other_lexeme

datatype number = uint64 "64 word" | double "64 word" | other_number

datatype expression =
  symbol_wrapper position function_signature
| call position expression "expression list"
| bool_literal bool
| variable_ref variable
| number_literal position number ast_type
| binary position expression lexeme_type expression

datatype statement =
  while_loop expression statement
| assignment expression expression
| if_stat expression statement "statement option"
| expression_stat expression
| ret "expression option"
| normal_block "statement list"

record function_definition =
  range_start :: position
  signature :: function_signature
  body :: statement

record extern_function_definition =
  ext_range_start :: position
  ext_signature :: function_signature

datatype top_level_node =
  function_decl function_definition
| extern_function_decl extern_function_definition
| other_decl

section \<open>The intermediate representation\<close>

text \<open>
  Types of the backend are interned per context: asking twice for the same shape gives the
  same object. A type is therefore modelled by its shape, and two type objects are the same
  object exactly when the shapes are equal.
\<close>

datatype llvm_type =
  void_ty
| int_ty nat
| float_ty
| double_ty
| pointer_ty llvm_type nat
| struct_ty "llvm_type list" bool
| function_ty llvm_type "llvm_type list" bool

datatype error =
  compiler_exception position string
| runtime_error string
| bad_variant_access

fun error_position :: "error \<Rightarrow> position option" where
  "error_position (compiler_exception p m) = Some p"
| "error_position (runtime_error m) = None"
| "error_position bad_variant_access = None"

fun is_compiler_exception :: "error \<Rightarrow> bool" where
  "is_compiler_exception (compiler_exception p m) = True"
| "is_compiler_exception (runtime_error m) = False"
| "is_compiler_exception bad_variant_access = False"

datatype linkage = ExternalLinkage | InternalLinkage

datatype opcode =
  Add | FAdd | Sub | FSub | Mul | FMul | SDiv | UDiv | FDiv
| ICmpEQ | FCmpOEQ | ICmpNE | FCmpONE
| ICmpSLT | ICmpULT | FCmpOLT
| ICmpSLE | FCmpOLE
| ICmpSGT | ICmpUGT | FCmpOGT
| ICmpSGE | FCmpOGE

text \<open>
  An instruction is an object of its own; it is identified by the block that holds it and
  its index there, which never changes because the builder only appends. A value that is
  the result of a stack allocation is kept apart from the results of the other
  instructions, since the generator asks of a value whether it is an allocation.
  A function is identified by its index in the module's list of functions.
\<close>

datatype llvm_value =
  constant_int nat nat
| constant_float "64 word"
| constant_double "64 word"
| constant_expr opcode llvm_value llvm_value
| function_value nat
| alloca_value nat nat
| instruction_value nat nat

datatype instruction =
  alloca_inst llvm_type
| load_inst llvm_value
| store_inst llvm_value llvm_value
| call_inst nat "llvm_value list"
| binary_inst opcode llvm_value llvm_value string
| ret_inst llvm_value
| ret_void_inst
| br_inst nat
| cond_br_inst llvm_value nat nat

fun is_terminator :: "instruction \<Rightarrow> bool" where
  "is_terminator (ret_inst v) = True"
| "is_terminator ret_void_inst = True"
| "is_terminator (br_inst b) = True"
| "is_terminator (cond_br_inst c t e) = True"
| "is_terminator i = False"

record llvm_function =
  fn_name :: string
  fn_type :: llvm_type
  fn_linkage :: linkage

record basic_block =
  bb_name :: string
  bb_parent :: nat
  bb_insts :: "instruction list"

text \<open>
  The state of one compilation: the module (its functions in creation order, and every
  basic block with the function that owns it), the function-type cache, the list of
  constructor functions, and the integer type of the platform's size width, which the
  class holds in a member the sources at hand never assign.
\<close>

record code_generation =
  module_functions :: "llvm_function list"
  module_blocks :: "basic_block list"
  function_type_map :: "string \<rightharpoonup> llvm_type"
  constructor_functions :: "nat list"
  size_type :: llvm_type

section \<open>Type lowering\<close>

fun get_llvm_type :: "code_generation \<Rightarrow> ast_type \<Rightarrow> error + llvm_type" where
  "get_llvm_type g (built_in void_tag) = Inr void_ty"
| "get_llvm_type g (built_in bool_tag) = Inr (int_ty 1)"
| "get_llvm_type g (built_in u8) = Inr (int_ty 8)"
| "get_llvm_type g (built_in i8) = Inr (int_ty 8)"
| "get_llvm_type g (built_in u16) = Inr (int_ty 16)"
| "get_llvm_type g (built_in i16) = Inr (int_ty 16)"
| "get_llvm_type g (built_in u32) = Inr (int_ty 32)"
| "get_llvm_type g (built_in i32) = Inr (int_ty 32)"
| "get_llvm_type g (built_in u64) = Inr (int_ty 64)"
| "get_llvm_type g (built_in i64) = Inr (int_ty 64)"
| "get_llvm_type g (built_in string) =
     Inr (struct_ty [size_type g, pointer_ty (int_ty 8) 0] False)"
| "get_llvm_type g (built_in f32) = Inr float_ty"
| "get_llvm_type g (built_in f64) = Inr double_ty"
| "get_llvm_type g (built_in other_tag) =
     Inl (compiler_exception (0, 0) ''internal compiler error: unknown type'')"
| "get_llvm_type g (class_type c) =
     Inl (runtime_error ''TODO: class types are not supported'')"

section \<open>Function signature lowering\<close>

text \<open>
  The two validity tests are the backend's: every type but a function type (and the label
  and metadata types, which type lowering never produces) may be returned, and every type
  but a function type and the void type may be passed.
\<close>

fun isValidReturnType :: "llvm_type \<Rightarrow> bool" where
  "isValidReturnType (function_ty r ps va) = False"
| "isValidReturnType t = True"

fun isValidArgumentType :: "llvm_type \<Rightarrow> bool" where
  "isValidArgumentType (function_ty r ps va) = False"
| "isValidArgumentType void_ty = False"
| "isValidArgumentType t = True"

text \<open>The loop over the parameters of \<^verbatim>\<open>get_llvm_function_type\<close>.\<close>

fun param_types :: "position \<Rightarrow> code_generation \<Rightarrow> variable list \<Rightarrow> error + llvm_type list" where
  "param_types position g [] = Inr []"
| "param_types position g (param # params) =
     (case get_llvm_type g (var_type param) of
        Inl e \<Rightarrow> Inl e
      | Inr param_type \<Rightarrow>
          if isValidArgumentType param_type then
            (case param_types position g params of
               Inl e \<Rightarrow> Inl e
             | Inr rest \<Rightarrow> Inr (param_type # rest))
          else Inl (compiler_exception position
                      ''internal compiler error: invalid parameter type''))"

definition get_llvm_function_type ::
  "position \<Rightarrow> function_signature \<Rightarrow> code_generation \<Rightarrow> error + (llvm_type \<times> code_generation)"
where
  "get_llvm_function_type position sig g =
     (case function_type_map g (mangled_name sig) of
        Some cached \<Rightarrow> Inr (cached, g)
      | None \<Rightarrow>
          (case get_llvm_type g (return_type sig) of
             Inl e \<Rightarrow> Inl e
           | Inr ret_type \<Rightarrow>
               if isValidReturnType ret_type then
                 (case param_types position g (parameters sig) of
                    Inl e \<Rightarrow> Inl e
                  | Inr ptypes \<Rightarrow>
                      Inr (function_ty ret_type ptypes False,
                           g\<lparr>function_type_map :=
                               (function_type_map g)
                                 (mangled_name sig \<mapsto> function_ty ret_type ptypes False)\<rparr>))
               else Inl (compiler_exception position
                           ''internal compiler error: invalid return type'')))"

section \<open>The module's registry of functions\<close>

text \<open>
  A function is found by its name in the module's symbol table, which holds no entry for
  the empty name. A new function is appended to the module's list; \<open>fn_name\<close> is the name
  asked for at creation (the backend appends a suffix when that name is taken, which
  \<^verbatim>\<open>get_or_declare_function\<close> never asks for, since it creates only after a failed
  lookup). Blocks likewise carry the label asked for.
\<close>

fun lookup :: "string \<Rightarrow> llvm_function list \<Rightarrow> nat option" where
  "lookup n [] = None"
| "lookup n (f # fs) = (if fn_name f = n then Some 0 else map_option Suc (lookup n fs))"

definition getFunction :: "code_generation \<Rightarrow> string \<Rightarrow> nat option" where
  "getFunction g n = (if n = [] then None else lookup n (module_functions g))"

definition Function_Create ::
  "llvm_type \<Rightarrow> linkage \<Rightarrow> string \<Rightarrow> code_generation \<Rightarrow> nat \<times> code_generation" where
  "Function_Create ty l n g =
     (length (module_functions g),
      g\<lparr>module_functions :=
          module_functions g @ [\<lparr>fn_name = n, fn_type = ty, fn_linkage = l\<rparr>]\<rparr>)"

text \<open>
  The name a signature is registered under in the module (the local \<^verbatim>\<open>name\<close> of
  \<^verbatim>\<open>get_or_declare_function\<close>): the declared name when extern, else the mangled name.
\<close>

definition registered_name :: "function_signature \<Rightarrow> string" where
  "registered_name sig = (if is_extern sig then name sig else mangled_name sig)"

definition get_or_declare_function ::
  "position \<Rightarrow> function_signature \<Rightarrow> code_generation \<Rightarrow> error + (nat \<times> code_generation)"
where
  "get_or_declare_function position sig g =
     (case getFunction g (registered_name sig) of
        Some func \<Rightarrow> Inr (func, g)
      | None \<Rightarrow>
          (case get_llvm_function_type position sig g of
             Inl e \<Rightarrow> Inl e
           | Inr (func_type, g1) \<Rightarrow>
               Inr (Function_Create func_type
                      (if is_extern sig then ExternalLinkage else InternalLinkage)
                      (registered_name sig) g1)))"

section \<open>The instruction builder\<close>

text \<open>
  A builder holds the block it inserts into, and always inserts at the end of that block:
  it is created on a block and moved only by \<^verbatim>\<open>SetInsertPoint\<close> on a block. The builder
  record carries the compilation state along, so that one value is threaded through
  lowering.
\<close>

record builder =
  insert_block :: nat
  gen :: code_generation

record code_gen_visitor = builder +
  variables :: "variable \<rightharpoonup> llvm_value"

definition block_insts :: "code_generation \<Rightarrow> nat \<Rightarrow> instruction list" where
  "block_insts g b = bb_insts (module_blocks g ! b)"

definition getParent :: "code_generation \<Rightarrow> nat \<Rightarrow> nat" where
  "getParent g b = bb_parent (module_blocks g ! b)"

text \<open>
  The terminator of a block is its last instruction when that is a terminator; a block
  that is empty or ends in another instruction has none.
\<close>

definition getTerminator :: "code_generation \<Rightarrow> nat \<Rightarrow> instruction option" where
  "getTerminator g b =
     (case rev (block_insts g b) of
        [] \<Rightarrow> None
      | i # before \<Rightarrow> if is_terminator i then Some i else None)"

definition append_inst :: "nat \<Rightarrow> instruction \<Rightarrow> code_generation \<Rightarrow> code_generation" where
  "append_inst b i g =
     g\<lparr>module_blocks :=
         (module_blocks g)
           [b := (module_blocks g ! b)\<lparr>bb_insts := bb_insts (module_blocks g ! b) @ [i]\<rparr>]\<rparr>"

definition Insert :: "instruction \<Rightarrow> 'a builder_scheme \<Rightarrow> 'a builder_scheme" where
  "Insert i bld = bld\<lparr>gen := append_inst (insert_block bld) i (gen bld)\<rparr>"

definition next_inst :: "'a builder_scheme \<Rightarrow> nat" where
  "next_inst bld = length (block_insts (gen bld) (insert_block bld))"

definition SetInsertPoint :: "nat \<Rightarrow> 'a builder_scheme \<Rightarrow> 'a builder_scheme" where
  "SetInsertPoint b bld = bld\<lparr>insert_block := b\<rparr>"

definition BasicBlock_Create :: "string \<Rightarrow> nat \<Rightarrow> code_generation \<Rightarrow> nat \<times> code_generation" where
  "BasicBlock_Create n parent g =
     (length (module_blocks g),
      g\<lparr>module_blocks :=
          module_blocks g @ [\<lparr>bb_name = n, bb_parent = parent, bb_insts = []\<rparr>]\<rparr>)"

definition CreateAlloca :: "llvm_type \<Rightarrow> 'a builder_scheme \<Rightarrow> llvm_value \<times> 'a builder_scheme" where
  "CreateAlloca ty bld =
     (alloca_value (insert_block bld) (next_inst bld), Insert (alloca_inst ty) bld)"

definition CreateLoad :: "llvm_value \<Rightarrow> 'a builder_scheme \<Rightarrow> llvm_value \<times> 'a builder_scheme" where
  "CreateLoad ptr bld =
     (instruction_value (insert_block bld) (next_inst bld), Insert (load_inst ptr) bld)"

definition CreateStore :: "llvm_value \<Rightarrow> llvm_value \<Rightarrow> 'a builder_scheme \<Rightarrow> 'a builder_scheme" where
  "CreateStore val ptr bld = Insert (store_inst val ptr) bld"

definition CreateCall ::
  "nat \<Rightarrow> llvm_value list \<Rightarrow> 'a builder_scheme \<Rightarrow> llvm_value \<times> 'a builder_scheme" where
  "CreateCall func args bld =
     (instruction_value (insert_block bld) (next_inst bld), Insert (call_inst func args) bld)"

definition CreateRet :: "llvm_value \<Rightarrow> 'a builder_scheme \<Rightarrow> 'a builder_scheme" where
  "CreateRet val bld = Insert (ret_inst val) bld"

definition CreateRetVoid :: "'a builder_scheme \<Rightarrow> 'a builder_scheme" where
  "CreateRetVoid bld = Insert ret_void_inst bld"

definition CreateBr :: "nat \<Rightarrow> 'a builder_scheme \<Rightarrow> 'a builder_scheme" where
  "CreateBr dest bld = Insert (br_inst dest) bld"

definition CreateCondBr ::
  "llvm_value \<Rightarrow> nat \<Rightarrow> nat \<Rightarrow> 'a builder_scheme \<Rightarrow> 'a builder_scheme" where
  "CreateCondBr cond t f bld = Insert (cond_br_inst cond t f) bld"

text \<open>
  The builder folds an arithmetic or comparison operation on two constants into a constant
  and inserts nothing; a function is a constant as well. Otherwise it inserts the
  instruction.
\<close>

fun isa_Constant :: "llvm_value \<Rightarrow> bool" where
  "isa_Constant (alloca_value b i) = False"
| "isa_Constant (instruction_value b i) = False"
| "isa_Constant v = True"

fun isa_AllocaInst :: "llvm_value \<Rightarrow> bool" where
  "isa_AllocaInst (alloca_value b i) = True"
| "isa_AllocaInst v = False"

definition CreateBinary ::
  "opcode \<Rightarrow> llvm_value \<Rightarrow> llvm_value \<Rightarrow> string \<Rightarrow> 'a builder_scheme
     \<Rightarrow> llvm_value \<times> 'a builder_scheme" where
  "CreateBinary opc lhs rhs nm bld =
     (if isa_Constant lhs \<and> isa_Constant rhs then (constant_expr opc lhs rhs, bld)
      else (instruction_value (insert_block bld) (next_inst bld),
            Insert (binary_inst opc lhs rhs nm) bld))"

section \<open>Body lowering\<close>

text \<open>
  The visitor keeps the value of the expression it lowered last in its member
  \<^verbatim>\<open>value\<close>. Every overload for an expression assigns the member before it returns, and
  every read of the member follows the visit of an expression, so the lowering of an
  expression returns that value here.

  A node is visited by calling the visitor's overload for its kind; when the overload
  returns \<^verbatim>\<open>true\<close> the children of the node are visited in order, and when it returns
  \<^verbatim>\<open>false\<close> they are not.
\<close>

text \<open>The \<^verbatim>\<open>switch\<close> on the evaluated type of an integer literal.\<close>

fun type_size :: "built_in_type \<Rightarrow> nat option" where
  "type_size u8 = Some 1"
| "type_size i8 = Some 1"
| "type_size u16 = Some 2"
| "type_size i16 = Some 2"
| "type_size u32 = Some 4"
| "type_size i32 = Some 4"
| "type_size u64 = Some 8"
| "type_size i64 = Some 8"
| "type_size t = None"

text \<open>
  An integer constant of a width keeps the low bits of the literal. A constant of the
  32-bit floating type is the literal's double converted to that type; the conversion is
  not computed, \<open>constant_float d\<close> stands for its result.
\<close>

definition number_constant :: "position \<Rightarrow> number \<Rightarrow> ast_type \<Rightarrow> error + llvm_value" where
  "number_constant position n eval_type =
     (case n of
        uint64 w \<Rightarrow>
          (case eval_type of
             class_type c \<Rightarrow> Inl bad_variant_access
           | built_in t \<Rightarrow>
               (case type_size t of
                  None \<Rightarrow> Inl (compiler_exception position
                                 ''internal compiler error: unknown integer type'')
                | Some sz \<Rightarrow> Inr (constant_int (sz * 8) (unat w mod 2 ^ (sz * 8)))))
      | double d \<Rightarrow>
          (case eval_type of
             class_type c \<Rightarrow> Inl bad_variant_access
           | built_in t \<Rightarrow>
               (if t = f32 then Inr (constant_float d)
                else if t = f64 then Inr (constant_double d)
                else Inl (compiler_exception position
                            ''internal compiler error: unknown floating point type'')))
      | other_number \<Rightarrow>
          Inl (compiler_exception position ''internal compiler error: unknown number type''))"

text \<open>
  The \<^verbatim>\<open>switch\<close> on the operator of a binary expression, with the two flags as the source
  sets them: both are the constant \<^verbatim>\<open>false\<close>.
\<close>

definition binary_operation ::
  "position \<Rightarrow> lexeme_type \<Rightarrow> llvm_value \<Rightarrow> llvm_value \<Rightarrow> 'a builder_scheme
     \<Rightarrow> error + (llvm_value \<times> 'a builder_scheme)" where
  "binary_operation position operation lhs_value rhs_value bld =
     (let unsigned_operation = False;
          float_operation = False
      in case operation of
           symbol_add \<Rightarrow>
             Inr (if float_operation then CreateBinary FAdd lhs_value rhs_value ''faddtmp'' bld
                  else CreateBinary Add lhs_value rhs_value ''addtmp'' bld)
         | symbol_minus \<Rightarrow>
             Inr (if float_operation then CreateBinary FSub lhs_value rhs_value ''fsubtmp'' bld
                  else CreateBinary Sub lhs_value rhs_value ''subtmp'' bld)
         | symbol_multiply \<Rightarrow>
             Inr (if float_operation then CreateBinary FMul lhs_value rhs_value ''fmultmp'' bld
                  else CreateBinary Mul lhs_value rhs_value ''multmp'' bld)
         | symbol_divide \<Rightarrow>
             Inr (if float_operation then CreateBinary FDiv lhs_value rhs_value ''fdivtmp'' bld
                  else if unsigned_operation
                  then CreateBinary UDiv lhs_value rhs_value ''udivtmp'' bld
                  else CreateBinary SDiv lhs_value rhs_value ''sdivtmp'' bld)
         | symbol_eq \<Rightarrow>
             Inr (if float_operation then CreateBinary FCmpOEQ lhs_value rhs_value ''feqtmp'' bld
                  else CreateBinary ICmpEQ lhs_value rhs_value ''eqtmp'' bld)
         | symbol_neq \<Rightarrow>
             Inr (if float_operation then CreateBinary FCmpONE lhs_value rhs_value ''fnetmp'' bld
                  else CreateBinary ICmpNE lhs_value rhs_value ''netmp'' bld)
         | symbol_lt \<Rightarrow>
             Inr (if float_operation then CreateBinary FCmpOLT lhs_value rhs_value ''folttmp'' bld
                  else if unsigned_operation
                  then CreateBinary ICmpULT lhs_value rhs_value ''ulttmp'' bld
                  else CreateBinary ICmpSLT lhs_value rhs_value ''slttmp'' bld)
         | symbol_lteq \<Rightarrow>
             Inr (if float_operation then CreateBinary FCmpOLE lhs_value rhs_value ''foletmp'' bld
                  else if unsigned_operation
                  then CreateBinary ICmpSLE lhs_value rhs_value ''uletmp'' bld
                  else CreateBinary ICmpSLE lhs_value rhs_value ''sletmp'' bld)
         | symbol_gt \<Rightarrow>
             Inr (if float_operation then CreateBinary FCmpOGT lhs_value rhs_value ''fogttmp'' bld
                  else if unsigned_operation
                  then CreateBinary ICmpUGT lhs_value rhs_value ''ugttmp'' bld
                  else CreateBinary ICmpSGT lhs_value rhs_value ''sgttmp'' bld)
         | symbol_gteq \<Rightarrow>
             Inr (if float_operation then CreateBinary FCmpOGE lhs_value rhs_value ''fogetmp'' bld
                  else if unsigned_operation
                  then CreateBinary ICmpSGE lhs_value rhs_value ''ugetmp'' bld
                  else CreateBinary ICmpSGE lhs_value rhs_value ''sgetmp'' bld)
         | other_lexeme \<Rightarrow>
             Inl (compiler_exception position
                    ''internal compiler error: invalid binary operation''))"

text \<open>
  A storage location is loaded before it is stored or returned
  (\<^verbatim>\<open>if (llvm::isa<llvm::AllocaInst>(v)) v = builder.CreateLoad(v)\<close>).
\<close>

definition load_if_alloca ::
  "llvm_value \<Rightarrow> 'a builder_scheme \<Rightarrow> llvm_value \<times> 'a builder_scheme" where
  "load_if_alloca v bld = (if isa_AllocaInst v then CreateLoad v bld else (v, bld))"

fun visit_expression ::
      "expression \<Rightarrow> code_gen_visitor \<Rightarrow> error + (llvm_value \<times> code_gen_visitor)"
  and visit_arguments ::
      "expression list \<Rightarrow> code_gen_visitor \<Rightarrow> error + (llvm_value list \<times> code_gen_visitor)"
where
  "visit_expression (symbol_wrapper position sig) v =
     (case get_or_declare_function position sig (gen v) of
        Inl e \<Rightarrow> Inl e
      | Inr (func, g) \<Rightarrow> Inr (function_value func, v\<lparr>gen := g\<rparr>))"
| "visit_expression (call position callee arguments) v =
     (case visit_expression callee v of
        Inl e \<Rightarrow> Inl e
      | Inr (val, v1) \<Rightarrow>
          (case val of
             function_value func \<Rightarrow>
               (case visit_arguments arguments v1 of
                  Inl e \<Rightarrow> Inl e
                | Inr (args, v2) \<Rightarrow> Inr (CreateCall func args v2))
           | _ \<Rightarrow> Inl (compiler_exception position
                         ''internal compiler error: expected function for call'')))"
| "visit_expression (bool_literal b) v = Inr (constant_int 1 (if b then 1 else 0), v)"
| "visit_expression (variable_ref var) v =
     (case variables v var of
        Some slot \<Rightarrow> Inr (slot, v)
      | None \<Rightarrow>
          (case get_llvm_type (gen v) (var_type var) of
             Inl e \<Rightarrow> Inl e
           | Inr ty \<Rightarrow> Inr (CreateAlloca ty v)))"
| "visit_expression (number_literal position n eval_type) v =
     (case number_constant position n eval_type of
        Inl e \<Rightarrow> Inl e
      | Inr c \<Rightarrow> Inr (c, v))"
| "visit_expression (binary position left operation right) v =
     (case visit_expression left v of
        Inl e \<Rightarrow> Inl e
      | Inr (lhs_value, v1) \<Rightarrow>
          (case visit_expression right v1 of
             Inl e \<Rightarrow> Inl e
           | Inr (rhs_value, v2) \<Rightarrow>
               binary_operation position operation lhs_value rhs_value v2))"
| "visit_arguments [] v = Inr ([], v)"
| "visit_arguments (arg # rest) v =
     (case visit_expression arg v of
        Inl e \<Rightarrow> Inl e
      | Inr (val, v1) \<Rightarrow>
          (case visit_arguments rest v1 of
             Inl e \<Rightarrow> Inl e
           | Inr (vals, v2) \<Rightarrow> Inr (val # vals, v2)))"

fun visit_statement :: "statement \<Rightarrow> code_gen_visitor \<Rightarrow> error + code_gen_visitor"
  and visit_children :: "statement list \<Rightarrow> code_gen_visitor \<Rightarrow> error + code_gen_visitor"
where
  "visit_statement (while_loop condition loop_body) v =
     (let start_block = insert_block v;
          (loop_start_block, g1) =
            BasicBlock_Create ''loopstart'' (getParent (gen v) start_block) (gen v);
          v1 = v\<lparr>gen := g1\<rparr>;
          v2 = (if getTerminator (gen v1) start_block = None
                then CreateBr loop_start_block v1 else v1);
          v3 = SetInsertPoint loop_start_block v2
      in case visit_expression condition v3 of
           Inl e \<Rightarrow> Inl e
         | Inr (condition_value, v4) \<Rightarrow>
             (let (loop_body_block, g5) =
                    BasicBlock_Create ''loopbody'' (getParent (gen v4) start_block) (gen v4);
                  v5 = SetInsertPoint loop_body_block (v4\<lparr>gen := g5\<rparr>)
              in case visit_statement loop_body v5 of
                   Inl e \<Rightarrow> Inl e
                 | Inr v6 \<Rightarrow>
                     (let v7 = (if getTerminator (gen v6) loop_body_block = None
                                then CreateBr loop_start_block
                                       (SetInsertPoint loop_body_block v6)
                                else v6);
                          (end_block, g8) =
                            BasicBlock_Create ''end'' (getParent (gen v7) start_block) (gen v7);
                          v8 = SetInsertPoint loop_start_block (v7\<lparr>gen := g8\<rparr>);
                          v9 = CreateCondBr condition_value loop_body_block end_block v8
                      in Inr (SetInsertPoint end_block v9))))"
| "visit_statement (assignment to from) v =
     (case visit_expression to v of
        Inl e \<Rightarrow> Inl e
      | Inr (to_value, v1) \<Rightarrow>
          (case visit_expression from v1 of
             Inl e \<Rightarrow> Inl e
           | Inr (from_value, v2) \<Rightarrow>
               (let (loaded, v3) = load_if_alloca from_value v2
                in Inr (CreateStore loaded to_value v3))))"
| "visit_statement (if_stat condition main_body else_body) v =
     (case visit_expression condition v of
        Inl e \<Rightarrow> Inl e
      | Inr (condition_value, v1) \<Rightarrow>
          (let start_block = insert_block v1;
               (main_body_block, g2) =
                 BasicBlock_Create ''mainbody'' (getParent (gen v1) start_block) (gen v1);
               v2 = SetInsertPoint main_body_block (v1\<lparr>gen := g2\<rparr>)
           in case visit_statement main_body v2 of
                Inl e \<Rightarrow> Inl e
              | Inr v3 \<Rightarrow>
                  (if else_body \<noteq> None then
                     (let (else_body_block, g4) =
                            BasicBlock_Create ''elsebody'' (getParent (gen v3) start_block)
                              (gen v3);
                          v4 = SetInsertPoint else_body_block (v3\<lparr>gen := g4\<rparr>)
                      in case visit_statement main_body v4 of
                           Inl e \<Rightarrow> Inl e
                         | Inr v5 \<Rightarrow>
                             (let (end_block, g6) =
                                    BasicBlock_Create ''end'' (getParent (gen v5) start_block)
                                      (gen v5);
                                  v6 = SetInsertPoint start_block (v5\<lparr>gen := g6\<rparr>);
                                  v7 = CreateCondBr condition_value main_body_block
                                         else_body_block v6;
                                  v8 = (if getTerminator (gen v7) main_body_block = None
                                        then CreateBr end_block
                                               (SetInsertPoint main_body_block v7)
                                        else v7);
                                  v9 = (if getTerminator (gen v8) else_body_block = None
                                        then CreateBr end_block
                                               (SetInsertPoint else_body_block v8)
                                        else v8)
                              in Inr (SetInsertPoint end_block v9)))
                   else
                     (let (end_block, g4) =
                            BasicBlock_Create ''end'' (getParent (gen v3) start_block) (gen v3);
                          v4 = v3\<lparr>gen := g4\<rparr>;
                          v5 = (if getTerminator (gen v4) start_block = None
                                then CreateCondBr condition_value main_body_block end_block
                                       (SetInsertPoint start_block v4)
                                else v4);
                          v6 = (if getTerminator (gen v5) main_body_block = None
                                then CreateBr end_block (SetInsertPoint main_body_block v5)
                                else v5)
                      in Inr (SetInsertPoint end_block v6)))))"
| "visit_statement (expression_stat e) v =
     (case visit_expression e v of
        Inl err \<Rightarrow> Inl err
      | Inr (val, v1) \<Rightarrow> Inr v1)"
| "visit_statement (ret None) v = Inr (CreateRetVoid v)"
| "visit_statement (ret (Some e)) v =
     (case visit_expression e v of
        Inl err \<Rightarrow> Inl err
      | Inr (val, v1) \<Rightarrow>
          (let (loaded, v2) = load_if_alloca val v1
           in Inr (CreateRet loaded v2)))"
| "visit_statement (normal_block children) v = visit_children children v"
| "visit_children [] v = Inr v"
| "visit_children (child # rest) v =
     (case visit_statement child v of
        Inl e \<Rightarrow> Inl e
      | Inr v1 \<Rightarrow> visit_children rest v1)"

section \<open>The module assembler\<close>

definition compile_function :: "function_definition \<Rightarrow> code_generation \<Rightarrow> error + code_generation" where
  "compile_function func g =
     (case get_or_declare_function (range_start func) (signature func) g of
        Inl e \<Rightarrow> Inl e
      | Inr (llvm_func, g1) \<Rightarrow>
          (let (basic_block, g2) = BasicBlock_Create ''entry'' llvm_func g1;
               code_gen = \<lparr>insert_block = basic_block, gen = g2, variables = Map.empty\<rparr>
           in case visit_statement (body func) code_gen of
                Inl e \<Rightarrow> Inl e
              | Inr code_gen1 \<Rightarrow>
                  (if ''constructor'' \<in> attributes (signature func) then
                     (let code_gen2 = CreateRetVoid code_gen1
                      in Inr ((gen code_gen2)
                                \<lparr>constructor_functions :=
                                   constructor_functions (gen code_gen2) @ [llvm_func]\<rparr>))
                   else Inr (gen code_gen1))))"

definition compile_extern_function ::
  "extern_function_definition \<Rightarrow> code_generation \<Rightarrow> error + code_generation" where
  "compile_extern_function func g =
     (case get_or_declare_function (ext_range_start func) (ext_signature func) g of
        Inl e \<Rightarrow> Inl e
      | Inr (llvm_func, g1) \<Rightarrow> Inr g1)"

text \<open>
  The function collector keeps the function definitions and the extern function
  definitions of the module's body, each in the order of the body.
\<close>

fun collected_functions :: "top_level_node list \<Rightarrow> function_definition list" where
  "collected_functions [] = []"
| "collected_functions (function_decl f # ns) = f # collected_functions ns"
| "collected_functions (n # ns) = collected_functions ns"

fun collected_extern_functions :: "top_level_node list \<Rightarrow> extern_function_definition list" where
  "collected_extern_functions [] = []"
| "collected_extern_functions (extern_function_decl f # ns) = f # collected_extern_functions ns"
| "collected_extern_functions (n # ns) = collected_extern_functions ns"

text \<open>The three loops of \<^verbatim>\<open>generate\<close>.\<close>

fun compile_extern_functions ::
  "extern_function_definition list \<Rightarrow> code_generation \<Rightarrow> error + code_generation" where
  "compile_extern_functions [] g = Inr g"
| "compile_extern_functions (func # funcs) g =
     (case compile_extern_function func g of
        Inl e \<Rightarrow> Inl e
      | Inr g1 \<Rightarrow> compile_extern_functions funcs g1)"

fun compile_functions :: "function_definition list \<Rightarrow> code_generation \<Rightarrow> error + code_generation" where
  "compile_functions [] g = Inr g"
| "compile_functions (func # funcs) g =
     (case compile_function func g of
        Inl e \<Rightarrow> Inl e
      | Inr g1 \<Rightarrow> compile_functions funcs g1)"

fun call_constructors :: "nat list \<Rightarrow> builder \<Rightarrow> builder" where
  "call_constructors [] entry_builder = entry_builder"
| "call_constructors (constructor_func # rest) entry_builder =
     call_constructors rest (snd (CreateCall constructor_func [] entry_builder))"

definition generate :: "top_level_node list \<Rightarrow> code_generation \<Rightarrow> error + code_generation" where
  "generate module_body g =
     (case compile_extern_functions (collected_extern_functions module_body) g of
        Inl e \<Rightarrow> Inl e
      | Inr g1 \<Rightarrow>
          (case compile_functions (collected_functions module_body) g1 of
             Inl e \<Rightarrow> Inl e
           | Inr g2 \<Rightarrow>
               (let (entry_function, g3) =
                      Function_Create (function_ty void_ty [] False) InternalLinkage ''entry'' g2;
                    (entry_basic_block, g4) = BasicBlock_Create ''entry'' entry_function g3;
                    entry_builder = \<lparr>insert_block = entry_basic_block, gen = g4\<rparr>;
                    entry_builder1 = call_constructors (constructor_functions g4) entry_builder;
                    entry_builder2 = CreateRetVoid entry_builder1
                in Inr (gen entry_builder2))))"

section \<open>Programs used as concrete inputs\<close>

text \<open>
  A fresh compilation state, and small functions without parameters that return nothing.
  The mangling scheme belongs to the resolver; the examples take the declared name as the
  mangled name.
\<close>

definition new_code_generation :: "llvm_type \<Rightarrow> code_generation" where
  "new_code_generation sz =
     \<lparr>module_functions = [], module_blocks = [], function_type_map = Map.empty,
      constructor_functions = [], size_type = sz\<rparr>"

definition void_signature :: "string \<Rightarrow> string set \<Rightarrow> function_signature" where
  "void_signature n attrs =
     \<lparr>name = n, mangled_name = n, parameters = [], return_type = built_in void_tag,
      is_extern = False, attributes = attrs\<rparr>"

definition void_function :: "string \<Rightarrow> string set \<Rightarrow> statement list \<Rightarrow> function_definition" where
  "void_function n attrs stmts =
     \<lparr>range_start = (1, 1), signature = void_signature n attrs, body = normal_block stmts\<rparr>"

definition local_variable :: "nat \<Rightarrow> string \<Rightarrow> built_in_type \<Rightarrow> variable" where
  "local_variable i n t = \<lparr>var_id = i, var_name = n, var_type = built_in t\<rparr>"


definition two_i32_signature :: "string \<Rightarrow> string \<Rightarrow> function_signature" where
  "two_i32_signature n m =
     \<lparr>name = n, mangled_name = m,
      parameters = [local_variable 0 ''x'' i32, local_variable 1 ''y'' i32],
      return_type = built_in i32, is_extern = False, attributes = {}\<rparr>"

text \<open>An extern signature; the resolver mangles no extern name.\<close>

definition extern_signature :: "string \<Rightarrow> variable list \<Rightarrow> ast_type \<Rightarrow> function_signature" where
  "extern_signature n ps r =
     \<lparr>name = n, mangled_name = [], parameters = ps, return_type = r, is_extern = True,
      attributes = {}\<rparr>"

text \<open>A visitor that stands on the empty entry block of a fresh module.\<close>

definition entry_visitor :: code_gen_visitor where
  "entry_visitor =
     \<lparr>insert_block = 0,
        gen = snd (BasicBlock_Create ''entry'' 0 (new_code_generation (int_ty 64))),
        variables = Map.empty\<rparr>"

section \<open>Invariants of lowering\<close>

text \<open>
  Lowering only adds to the module: the list of functions and the list of blocks grow at
  the end, a block keeps its owner, and the visitor touches neither the list of
  constructor functions nor the size type.
\<close>

definition grows :: "code_generation \<Rightarrow> code_generation \<Rightarrow> bool" where
  "grows g g' =
     (prefix (module_functions g) (module_functions g') \<and>
      prefix (map bb_parent (module_blocks g)) (map bb_parent (module_blocks g')) \<and>
      constructor_functions g' = constructor_functions g \<and>
      size_type g' = size_type g)"

text \<open>Every block belongs to a function of the module.\<close>

definition blocks_owned :: "code_generation \<Rightarrow> bool" where
  "blocks_owned g = list_all (\<lambda>p. p < length (module_functions g)) (map bb_parent (module_blocks g))"

text \<open>The builder stands on a block of the module.\<close>

definition cursor_valid :: "'a builder_scheme \<Rightarrow> bool" where
  "cursor_valid bld = (insert_block bld < length (module_blocks (gen bld)))"

text \<open>The loads of the module, block by block.\<close>

fun isa_LoadInst :: "instruction \<Rightarrow> bool" where
  "isa_LoadInst (load_inst p) = True"
| "isa_LoadInst i = False"

definition load_insts :: "code_generation \<Rightarrow> instruction list list" where
  "load_insts g = map (\<lambda>b. filter isa_LoadInst (bb_insts b)) (module_blocks g)"

text \<open>What a run of the visitor from \<open>v\<close> to \<open>v'\<close> keeps.\<close>

definition lowers :: "code_gen_visitor \<Rightarrow> code_gen_visitor \<Rightarrow> bool" where
  "lowers v v' =
     (cursor_valid v' \<and> grows (gen v) (gen v') \<and>
      (blocks_owned (gen v) \<longrightarrow> blocks_owned (gen v')) \<and>
      variables v' = variables v)"

section \<open>Evaluating the model on a concrete program\<close>

text \<open>
  The definitions of the builder and of the lowering functions, collected for unfolding, and
  rules that substitute a bound value only once it is a constructed value, so that a chain
  of bindings is evaluated in order, each state once.
\<close>

lemmas builder_defs = Function_Create_def BasicBlock_Create_def CreateRetVoid_def CreateRet_def
  CreateAlloca_def CreateLoad_def CreateStore_def CreateCall_def CreateBinary_def
  Insert_def append_inst_def SetInsertPoint_def CreateCondBr_def CreateBr_def getTerminator_def
  block_insts_def getParent_def next_inst_def load_if_alloca_def

lemmas lowering_defs = compile_function_def compile_extern_function_def generate_def
  new_code_generation_def get_or_declare_function_def getFunction_def
  get_llvm_function_type_def registered_name_def binary_operation_def number_constant_def

lemmas example_defs = void_function_def void_signature_def local_variable_def

lemma let_visitor:
  "Let \<lparr>insert_block = a, gen = b, variables = c\<rparr> f =
     f \<lparr>insert_block = a, gen = b, variables = c\<rparr>"
  by simp

lemma let_builder: "Let \<lparr>insert_block = a, gen = b\<rparr> f = f \<lparr>insert_block = a, gen = b\<rparr>"
  by simp

lemma let_pair: "Let (a, b) f = f (a, b)"
  by simp

lemma let_nat:
  "Let (0::nat) f = f 0" "Let (Suc n) f = f (Suc n)" "Let (numeral k :: nat) f = f (numeral k)"
  by simp_all

lemmas let_values = let_visitor let_builder let_pair let_nat

section \<open>What lowering preserves\<close>

subsection \<open>The compilation state\<close>

lemma grows_refl: "grows g g"
  by (simp add: grows_def)

lemma grows_trans: "grows g1 g2 \<Longrightarrow> grows g2 g3 \<Longrightarrow> grows g1 g3"
  unfolding grows_def by (metis prefix_order.trans)

lemma parents_update_insts:
  "map bb_parent (bs[b := (bs ! b)\<lparr>bb_insts := ins\<rparr>]) = map bb_parent bs"
proof (cases "b < length bs")
  case True
  then show ?thesis by (intro nth_equalityI) (auto simp: nth_list_update)
next
  case False
  then have "bs[b := (bs ! b)\<lparr>bb_insts := ins\<rparr>] = bs"
    by (intro list_update_beyond) simp
  then show ?thesis by simp
qed

lemma append_inst_fields:
  "module_functions (append_inst b i g) = module_functions g"
  "constructor_functions (append_inst b i g) = constructor_functions g"
  "function_type_map (append_inst b i g) = function_type_map g"
  "size_type (append_inst b i g) = size_type g"
  "length (module_blocks (append_inst b i g)) = length (module_blocks g)"
  "map bb_parent (module_blocks (append_inst b i g)) = map bb_parent (module_blocks g)"
  by (simp_all add: append_inst_def parents_update_insts)

lemma block_insts_append_inst:
  "b < length (module_blocks g) \<Longrightarrow>
   block_insts (append_inst b i g) b' = (if b' = b then block_insts g b @ [i] else block_insts g b')"
  by (simp add: append_inst_def block_insts_def nth_list_update)

lemma getParent_append_inst: "getParent (append_inst b i g) b' = getParent g b'"
proof -
  have "bb_parent (module_blocks (append_inst b i g) ! b') = bb_parent (module_blocks g ! b')"
    by (cases "b < length (module_blocks g)")
      (auto simp: append_inst_def nth_list_update list_update_beyond)
  then show ?thesis by (simp add: getParent_def)
qed

lemma grows_append_inst: "grows g (append_inst b i g)"
  by (simp add: grows_def append_inst_fields)

lemma blocks_owned_append_inst: "blocks_owned (append_inst b i g) = blocks_owned g"
  by (simp add: blocks_owned_def append_inst_fields)

lemma grows_length: "grows g g' \<Longrightarrow> length (module_blocks g) \<le> length (module_blocks g')"
  unfolding grows_def by (metis length_map prefix_length_le)

lemma grows_functions_length:
  "grows g g' \<Longrightarrow> length (module_functions g) \<le> length (module_functions g')"
  unfolding grows_def by (metis prefix_length_le)

lemma prefix_nth: "prefix xs ys \<Longrightarrow> i < length xs \<Longrightarrow> ys ! i = xs ! i"
  by (auto simp: prefix_def nth_append)

lemma grows_function_nth:
  "grows g g' \<Longrightarrow> i < length (module_functions g) \<Longrightarrow> module_functions g' ! i = module_functions g ! i"
  unfolding grows_def by (simp add: prefix_nth)

lemma grows_getParent:
  assumes "grows g g'" and "b < length (module_blocks g)"
  shows "getParent g' b = getParent g b"
proof -
  have "map bb_parent (module_blocks g') ! b = map bb_parent (module_blocks g) ! b"
    using assms unfolding grows_def by (metis prefix_nth length_map)
  moreover have "b < length (module_blocks g')"
    using assms grows_length by fastforce
  ultimately show ?thesis using assms(2) by (simp add: getParent_def)
qed

lemma blocks_owned_parent:
  "blocks_owned g \<Longrightarrow> b < length (module_blocks g) \<Longrightarrow> getParent g b < length (module_functions g)"
  by (simp add: blocks_owned_def getParent_def list_all_length)

lemma BasicBlock_Create_eq:
  "BasicBlock_Create n p g = (b, g') \<Longrightarrow>
   b = length (module_blocks g) \<and>
   module_blocks g' = module_blocks g @ [\<lparr>bb_name = n, bb_parent = p, bb_insts = []\<rparr>] \<and>
   module_functions g' = module_functions g \<and>
   constructor_functions g' = constructor_functions g \<and>
   function_type_map g' = function_type_map g \<and>
   size_type g' = size_type g"
  by (auto simp: BasicBlock_Create_def)

lemma BasicBlock_Create_grows: "BasicBlock_Create n p g = (b, g') \<Longrightarrow> grows g g'"
  by (auto simp: BasicBlock_Create_def grows_def)

lemma BasicBlock_Create_owned:
  "BasicBlock_Create n p g = (b, g') \<Longrightarrow> p < length (module_functions g) \<Longrightarrow>
   blocks_owned g \<Longrightarrow> blocks_owned g'"
  by (auto simp: BasicBlock_Create_def blocks_owned_def)

subsection \<open>The registry\<close>

lemma lookup_Some: "lookup n fs = Some i \<Longrightarrow> i < length fs \<and> fn_name (fs ! i) = n"
  by (induction fs arbitrary: i) (auto split: if_splits)

lemma get_llvm_function_type_fields:
  assumes "get_llvm_function_type position sig g = Inr (t, g')"
  shows "module_functions g' = module_functions g" "module_blocks g' = module_blocks g"
    "constructor_functions g' = constructor_functions g" "size_type g' = size_type g"
  using assms
  by (auto simp: get_llvm_function_type_def split: option.splits sum.splits if_splits)

lemma get_or_declare_function_result:
  assumes "get_or_declare_function position sig g = Inr (f, g')"
  shows "prefix (module_functions g) (module_functions g')"
    and "module_blocks g' = module_blocks g"
    and "constructor_functions g' = constructor_functions g"
    and "size_type g' = size_type g"
    and "f < length (module_functions g')"
    and "fn_name (module_functions g' ! f) = registered_name sig"
  using assms get_llvm_function_type_fields [of position sig g]
  by (auto simp: get_or_declare_function_def getFunction_def Function_Create_def
        dest: lookup_Some split: option.splits sum.splits if_splits)

lemma get_or_declare_function_grows:
  "get_or_declare_function position sig g = Inr (f, g') \<Longrightarrow> grows g g'"
  by (simp add: grows_def get_or_declare_function_result)

lemma get_or_declare_function_owned:
  assumes "get_or_declare_function position sig g = Inr (f, g')" and "blocks_owned g"
  shows "blocks_owned g'"
proof -
  have "length (module_functions g) \<le> length (module_functions g')"
    using get_or_declare_function_result(1) [OF assms(1)] by (rule prefix_length_le)
  then show ?thesis
    using assms(2) get_or_declare_function_result(2) [OF assms(1)]
    by (auto simp: blocks_owned_def list_all_length)
qed

subsection \<open>The builder\<close>

lemma Insert_fields:
  "gen (Insert i bld) = append_inst (insert_block bld) i (gen bld)"
  "insert_block (Insert i bld) = insert_block bld"
  by (simp_all add: Insert_def)

lemma Insert_variables: "variables (Insert i v) = variables v"
  by (simp add: Insert_def)

lemma SetInsertPoint_fields:
  "gen (SetInsertPoint b bld) = gen bld"
  "insert_block (SetInsertPoint b bld) = b"
  by (simp_all add: SetInsertPoint_def)

lemma SetInsertPoint_variables: "variables (SetInsertPoint b v) = variables v"
  by (simp add: SetInsertPoint_def)

lemma lowers_refl: "cursor_valid v \<Longrightarrow> lowers v v"
  by (simp add: lowers_def grows_refl)

lemma lowers_trans: "lowers v1 v2 \<Longrightarrow> lowers v2 v3 \<Longrightarrow> lowers v1 v3"
  unfolding lowers_def using grows_trans by auto

lemma lowers_cursor: "lowers v0 v \<Longrightarrow> cursor_valid v"
  by (simp add: lowers_def)

lemma lowers_known:
  "lowers v0 v \<Longrightarrow> b < length (module_blocks (gen v0)) \<Longrightarrow> b < length (module_blocks (gen v))"
  unfolding lowers_def using grows_length by fastforce

lemma lowers_Insert: "lowers v0 v \<Longrightarrow> lowers v0 (Insert i v)"
  unfolding lowers_def cursor_valid_def
  using grows_trans [OF _ grows_append_inst]
  by (simp add: Insert_fields Insert_variables append_inst_fields blocks_owned_append_inst)

lemma lowers_SetInsertPoint:
  "lowers v0 v \<Longrightarrow> b < length (module_blocks (gen v)) \<Longrightarrow> lowers v0 (SetInsertPoint b v)"
  unfolding lowers_def cursor_valid_def
  by (simp add: SetInsertPoint_fields SetInsertPoint_variables)

lemma lowers_new_block:
  assumes "lowers v0 v" and "b0 < length (module_blocks (gen v))"
      and "BasicBlock_Create n (getParent (gen v) b0) (gen v) = (b, g')"
  shows "lowers v0 (v\<lparr>gen := g'\<rparr>)"
    and "b = length (module_blocks (gen v))"
    and "length (module_blocks g') = Suc (length (module_blocks (gen v)))"
proof -
  note eq = BasicBlock_Create_eq [OF assms(3)]
  show "b = length (module_blocks (gen v))" using eq by simp
  show "length (module_blocks g') = Suc (length (module_blocks (gen v)))" using eq by simp
  have "grows (gen v0) g'"
    using assms(1) BasicBlock_Create_grows [OF assms(3)] grows_trans
    unfolding lowers_def by blast
  moreover have "blocks_owned g'" if "blocks_owned (gen v0)"
  proof -
    from that assms(1) have own: "blocks_owned (gen v)" by (simp add: lowers_def)
    then have "getParent (gen v) b0 < length (module_functions (gen v))"
      using assms(2) by (rule blocks_owned_parent)
    with assms(3) own show ?thesis using BasicBlock_Create_owned by blast
  qed
  moreover have "insert_block v < length (module_blocks g')"
    using assms(1) eq unfolding lowers_def cursor_valid_def by simp
  ultimately show "lowers v0 (v\<lparr>gen := g'\<rparr>)"
    using assms(1) unfolding lowers_def cursor_valid_def by simp
qed

lemma lowers_declare:
  assumes "lowers v0 v" and "get_or_declare_function position sig (gen v) = Inr (f, g')"
  shows "lowers v0 (v\<lparr>gen := g'\<rparr>)"
proof -
  have "grows (gen v0) g'"
    using assms(1) get_or_declare_function_grows [OF assms(2)] grows_trans
    unfolding lowers_def by blast
  moreover have "blocks_owned (gen v) \<Longrightarrow> blocks_owned g'"
    using assms(2) by (rule get_or_declare_function_owned)
  ultimately show ?thesis
    using assms(1) get_or_declare_function_result(2) [OF assms(2)]
    unfolding lowers_def cursor_valid_def by simp
qed

lemma lowers_Create:
  assumes "lowers v0 v"
  shows "lowers v0 (snd (CreateAlloca ty v))"
    and "lowers v0 (snd (CreateLoad p v))"
    and "lowers v0 (CreateStore x p v)"
    and "lowers v0 (snd (CreateCall f args v))"
    and "lowers v0 (CreateRet x v)"
    and "lowers v0 (CreateRetVoid v)"
    and "lowers v0 (CreateBr b v)"
    and "lowers v0 (CreateCondBr c t e v)"
    and "lowers v0 (snd (CreateBinary opc l r nm v))"
    and "lowers v0 (snd (load_if_alloca x v))"
  using assms
  by (simp_all add: CreateAlloca_def CreateLoad_def CreateStore_def CreateCall_def CreateRet_def
        CreateRetVoid_def CreateBr_def CreateCondBr_def CreateBinary_def load_if_alloca_def
        lowers_Insert)

lemma insert_block_Create:
  "insert_block (snd (CreateAlloca ty bld)) = insert_block bld"
  "insert_block (snd (CreateLoad p bld)) = insert_block bld"
  "insert_block (snd (CreateCall f args bld)) = insert_block bld"
  "insert_block (snd (CreateBinary opc l r nm bld)) = insert_block bld"
  by (simp_all add: CreateAlloca_def CreateLoad_def CreateCall_def CreateBinary_def Insert_fields)

lemma binary_operation_lowers:
  assumes "lowers v0 v" and "binary_operation position operation l r v = Inr (x, v')"
  shows "lowers v0 v'" and "insert_block v' = insert_block v"
proof -
  from assms(2) obtain opc nm where "CreateBinary opc l r nm v = (x, v')"
    by (cases operation) (auto simp: binary_operation_def)
  then have v': "v' = snd (CreateBinary opc l r nm v)" by (metis snd_conv)
  show "lowers v0 v'" unfolding v' using assms(1) by (rule lowers_Create)
  show "insert_block v' = insert_block v" unfolding v' by (rule insert_block_Create)
qed

subsection \<open>Expressions\<close>

lemma visit_arguments_lowers:
  assumes elems: "\<And>e v x v'. e \<in> set es \<Longrightarrow> cursor_valid v \<Longrightarrow>
              visit_expression e v = Inr (x, v') \<Longrightarrow>
              lowers v v' \<and> insert_block v' = insert_block v"
      and "cursor_valid v" and "visit_arguments es v = Inr (xs, v')"
  shows "lowers v v' \<and> insert_block v' = insert_block v"
  using assms
proof (induction es arbitrary: v xs v')
  case Nil
  then show ?case by (simp add: lowers_refl)
next
  case (Cons e es)
  from Cons.prems(3) obtain x v1 ys where
    e: "visit_expression e v = Inr (x, v1)" and rest: "visit_arguments es v1 = Inr (ys, v')"
    by (auto split: sum.splits)
  have 1: "lowers v v1 \<and> insert_block v1 = insert_block v"
    using Cons.prems(1) [OF _ Cons.prems(2) e] by simp
  then have valid: "cursor_valid v1" using lowers_cursor by blast
  have tail: "lowers u u' \<and> insert_block u' = insert_block u"
    if "e' \<in> set es" "cursor_valid u" "visit_expression e' u = Inr (y, u')" for e' u y u'
    using Cons.prems(1) [of e' u y u'] that by simp
  have 2: "lowers v1 v' \<and> insert_block v' = insert_block v1"
    using Cons.IH [OF tail valid rest] by simp
  from 1 2 show ?case using lowers_trans by auto
qed

lemma visit_expression_lowers:
  "cursor_valid v \<Longrightarrow> visit_expression e v = Inr (x, v') \<Longrightarrow>
   lowers v v' \<and> insert_block v' = insert_block v"
proof (induction e arbitrary: v x v')
  case (symbol_wrapper position sig)
  then show ?case
    by (auto split: sum.splits simp: lowers_declare lowers_refl)
next
  case (call position callee arguments)
  from call.prems(2) obtain func v1 args v2 where
    callee: "visit_expression callee v = Inr (function_value func, v1)"
    and args: "visit_arguments arguments v1 = Inr (args, v2)"
    and res: "(x, v') = CreateCall func args v2"
    by (auto split: sum.splits llvm_value.splits)
  have 1: "lowers v v1 \<and> insert_block v1 = insert_block v"
    using call.IH(1) [OF call.prems(1) callee] .
  then have "cursor_valid v1" using lowers_cursor by blast
  then have 2: "lowers v1 v2 \<and> insert_block v2 = insert_block v1"
    using visit_arguments_lowers [OF _ _ args] call.IH(2) by blast
  have v': "v' = snd (CreateCall func args v2)" using res by (metis snd_conv)
  have "lowers v v2" using 1 2 lowers_trans by blast
  then have "lowers v v'" unfolding v' by (rule lowers_Create)
  moreover have "insert_block v' = insert_block v"
    unfolding v' using 1 2 by (simp add: insert_block_Create)
  ultimately show ?case by simp
next
  case (bool_literal b)
  then show ?case by (auto simp: lowers_refl)
next
  case (variable_ref var)
  then show ?case
    by (auto split: option.splits sum.splits
          simp: lowers_refl CreateAlloca_def lowers_Insert Insert_fields)
next
  case (number_literal position n eval_type)
  then show ?case by (auto split: sum.splits simp: lowers_refl)
next
  case (binary position left operation right)
  from binary.prems(2) obtain l v1 r v2 where
    left: "visit_expression left v = Inr (l, v1)"
    and right: "visit_expression right v1 = Inr (r, v2)"
    and res: "binary_operation position operation l r v2 = Inr (x, v')"
    by (auto split: sum.splits)
  have 1: "lowers v v1 \<and> insert_block v1 = insert_block v"
    using binary.IH(1) [OF binary.prems(1) left] .
  then have "cursor_valid v1" using lowers_cursor by blast
  then have 2: "lowers v1 v2 \<and> insert_block v2 = insert_block v1"
    using binary.IH(2) [OF _ right] by simp
  have 3: "lowers v v2" using 1 2 lowers_trans by blast
  show ?case
    using binary_operation_lowers [OF 3 res] 1 2 by simp
qed

subsection \<open>Statements\<close>

lemma case_BasicBlock_Create:
  "(case BasicBlock_Create n p g of (b, g') \<Rightarrow> f b g') =
     f (length (module_blocks g)) (snd (BasicBlock_Create n p g))"
  by (simp add: BasicBlock_Create_def)

lemma blocks_length:
  "length (module_blocks (gen (Insert i bld))) = length (module_blocks (gen bld))"
  "length (module_blocks (gen (SetInsertPoint b bld))) = length (module_blocks (gen bld))"
  "length (module_blocks (gen (CreateBr b bld))) = length (module_blocks (gen bld))"
  "length (module_blocks (gen (CreateCondBr c t e bld))) = length (module_blocks (gen bld))"
  "length (module_blocks (gen (CreateRetVoid bld))) = length (module_blocks (gen bld))"
  "length (module_blocks (snd (BasicBlock_Create n p g))) = Suc (length (module_blocks g))"
  by (simp_all add: Insert_def SetInsertPoint_def CreateBr_def CreateCondBr_def CreateRetVoid_def
        append_inst_fields BasicBlock_Create_def)

lemma lowers_block:
  assumes "lowers v0 v" and "b0 < length (module_blocks (gen v))"
  shows "lowers v0 (v\<lparr>gen := snd (BasicBlock_Create n (getParent (gen v) b0) (gen v))\<rparr>)"
  using lowers_new_block(1) [OF assms, of n] by (metis prod.collapse)

lemma lowers_block_at:
  assumes "lowers v0 v" and "b0 < length (module_blocks (gen v))"
  shows "lowers v0 (SetInsertPoint (length (module_blocks (gen v)))
           (v\<lparr>gen := snd (BasicBlock_Create n (getParent (gen v) b0) (gen v))\<rparr>))"
  using lowers_block [OF assms, of n]
  by (intro lowers_SetInsertPoint) (simp_all add: blocks_length)

lemma lowers_branch:
  assumes "lowers v0 v" and "b < length (module_blocks (gen v))"
  shows "lowers v0 (if c then CreateBr e (SetInsertPoint b v) else v)"
    and "lowers v0 (if c then CreateCondBr x t e (SetInsertPoint b v) else v)"
  using assms by (simp_all add: lowers_Create lowers_SetInsertPoint)

lemma branch_length:
  "length (module_blocks (gen (if c then CreateBr e (SetInsertPoint b v) else v))) =
     length (module_blocks (gen v))"
  "length (module_blocks (gen (if c then CreateCondBr x t e (SetInsertPoint b v) else v))) =
     length (module_blocks (gen v))"
  by (simp_all add: blocks_length)

lemma lowers_then:
  assumes "lowers v0 v" and "lowers v v'"
  shows "lowers v0 v'" and "length (module_blocks (gen v)) \<le> length (module_blocks (gen v'))"
  using assms lowers_trans apply blast
  using assms(2) unfolding lowers_def by (simp add: grows_length)

lemma visit_children_lowers:
  assumes elems: "\<And>s v v'. s \<in> set ss \<Longrightarrow> cursor_valid v \<Longrightarrow>
              visit_statement s v = Inr v' \<Longrightarrow> lowers v v'"
      and "cursor_valid v" and "visit_children ss v = Inr v'"
  shows "lowers v v'"
  using assms
proof (induction ss arbitrary: v v')
  case Nil
  then show ?case by (simp add: lowers_refl)
next
  case (Cons s ss)
  from Cons.prems(3) obtain v1 where
    s: "visit_statement s v = Inr v1" and rest: "visit_children ss v1 = Inr v'"
    by (auto split: sum.splits)
  have 1: "lowers v v1" using Cons.prems(1) [OF _ Cons.prems(2) s] by simp
  then have valid: "cursor_valid v1" using lowers_cursor by blast
  have tail: "lowers u u'"
    if "s' \<in> set ss" "cursor_valid u" "visit_statement s' u = Inr u'" for s' u u'
    using Cons.prems(1) [of s' u u'] that by simp
  have 2: "lowers v1 v'" using Cons.IH [OF tail valid rest] by simp
  from 1 2 show ?case by (rule lowers_trans)
qed

lemma visit_while_loop_lowers:
  assumes body: "\<And>u u'. cursor_valid u \<Longrightarrow> visit_statement loop_body u = Inr u' \<Longrightarrow> lowers u u'"
      and valid: "cursor_valid v"
      and run: "visit_statement (while_loop condition loop_body) v = Inr v'"
  shows "lowers v v'"
proof -
  let ?sb = "insert_block v"
  let ?lsb = "length (module_blocks (gen v))"
  let ?v1 = "v\<lparr>gen := snd (BasicBlock_Create ''loopstart'' (getParent (gen v) ?sb) (gen v))\<rparr>"
  let ?v2 = "if getTerminator (gen ?v1) ?sb = None then CreateBr ?lsb ?v1 else ?v1"
  let ?v3 = "SetInsertPoint ?lsb ?v2"
  have sb: "?sb < ?lsb" using valid by (simp add: cursor_valid_def)
  from run obtain cv v4 where c: "visit_expression condition ?v3 = Inr (cv, v4)"
    by (simp add: Let_def case_BasicBlock_Create split: sum.splits) auto
  let ?lbb = "length (module_blocks (gen v4))"
  let ?v5 = "SetInsertPoint ?lbb
    (v4\<lparr>gen := snd (BasicBlock_Create ''loopbody'' (getParent (gen v4) ?sb) (gen v4))\<rparr>)"
  from run c obtain v6 where b: "visit_statement loop_body ?v5 = Inr v6"
    by (simp add: Let_def case_BasicBlock_Create split: sum.splits)
  let ?v7 = "if getTerminator (gen v6) ?lbb = None
             then CreateBr ?lsb (SetInsertPoint ?lbb v6) else v6"
  let ?eb = "length (module_blocks (gen ?v7))"
  let ?v8 = "SetInsertPoint ?lsb
    (?v7\<lparr>gen := snd (BasicBlock_Create ''end'' (getParent (gen ?v7) ?sb) (gen ?v7))\<rparr>)"
  have res: "v' = SetInsertPoint ?eb (CreateCondBr cv ?lbb ?eb ?v8)"
    using run c b by (simp add: Let_def case_BasicBlock_Create)
  have l1: "lowers v ?v1" using lowers_refl [OF valid] sb by (rule lowers_block)
  have l2: "lowers v ?v2" using l1 by (simp add: lowers_Create)
  have n2: "length (module_blocks (gen ?v2)) = Suc ?lsb" by (simp add: blocks_length)
  have l3: "lowers v ?v3" using l2 n2 by (intro lowers_SetInsertPoint) simp_all
  have s4: "lowers ?v3 v4"
    using visit_expression_lowers [OF lowers_cursor [OF l3] c] by simp
  have l4: "lowers v v4" and n4: "Suc ?lsb \<le> ?lbb"
    using lowers_then [OF l3 s4] n2 by (simp_all add: blocks_length)
  have l5: "lowers v ?v5" using l4 sb n4 by (intro lowers_block_at) simp_all
  have s6: "lowers ?v5 v6" using body [OF lowers_cursor [OF l5] b] .
  have l6: "lowers v v6" and n6: "Suc ?lbb \<le> length (module_blocks (gen v6))"
    using lowers_then [OF l5 s6] by (simp_all add: blocks_length)
  have l7: "lowers v ?v7" using l6 n6 by (intro lowers_branch) simp_all
  have n7: "?eb = length (module_blocks (gen v6))" by (rule branch_length)
  have "lowers v (?v7\<lparr>gen := snd (BasicBlock_Create ''end'' (getParent (gen ?v7) ?sb) (gen ?v7))\<rparr>)"
    using l7 sb n4 n6 n7 by (intro lowers_block) simp_all
  then have l8: "lowers v ?v8"
    using n4 n6 n7 by (intro lowers_SetInsertPoint) (simp_all add: blocks_length)
  have "lowers v (CreateCondBr cv ?lbb ?eb ?v8)" using l8 by (rule lowers_Create)
  then show ?thesis unfolding res
    by (intro lowers_SetInsertPoint) (simp_all add: blocks_length)
qed

lemma visit_if_stat_lowers:
  assumes body: "\<And>u u'. cursor_valid u \<Longrightarrow> visit_statement main_body u = Inr u' \<Longrightarrow> lowers u u'"
      and valid: "cursor_valid v"
      and run: "visit_statement (if_stat condition main_body else_body) v = Inr v'"
  shows "lowers v v'"
proof -
  from run obtain cv v1 where c: "visit_expression condition v = Inr (cv, v1)"
    by (auto split: sum.splits)
  let ?sb = "insert_block v1"
  let ?mb = "length (module_blocks (gen v1))"
  let ?v2 = "SetInsertPoint ?mb
    (v1\<lparr>gen := snd (BasicBlock_Create ''mainbody'' (getParent (gen v1) ?sb) (gen v1))\<rparr>)"
  from run c obtain v3 where m: "visit_statement main_body ?v2 = Inr v3"
    by (simp add: Let_def case_BasicBlock_Create split: sum.splits)
  let ?n3 = "length (module_blocks (gen v3))"
  have l1: "lowers v v1" using visit_expression_lowers [OF valid c] by simp
  have sb: "?sb < ?mb" using lowers_cursor [OF l1] by (simp add: cursor_valid_def)
  have l2: "lowers v ?v2" using l1 sb by (rule lowers_block_at)
  have s3: "lowers ?v2 v3" using body [OF lowers_cursor [OF l2] m] .
  have l3: "lowers v v3" and n3: "Suc ?mb \<le> ?n3"
    using lowers_then [OF l2 s3] by (simp_all add: blocks_length)
  have sb3: "?sb < ?n3" using sb n3 by simp
  show ?thesis
  proof (cases else_body)
    case None
    let ?v4 = "v3\<lparr>gen := snd (BasicBlock_Create ''end'' (getParent (gen v3) ?sb) (gen v3))\<rparr>"
    let ?v5 = "if getTerminator (gen ?v4) ?sb = None
               then CreateCondBr cv ?mb ?n3 (SetInsertPoint ?sb ?v4) else ?v4"
    let ?v6 = "if getTerminator (gen ?v5) ?mb = None
               then CreateBr ?n3 (SetInsertPoint ?mb ?v5) else ?v5"
    have res: "v' = SetInsertPoint ?n3 ?v6"
      using run c m None by (simp add: Let_def case_BasicBlock_Create)
    have l4: "lowers v ?v4" using l3 sb3 by (rule lowers_block)
    have l5: "lowers v ?v5"
      by (rule lowers_branch(2) [OF l4]) (use sb3 in \<open>simp add: blocks_length\<close>)
    have l6: "lowers v ?v6"
      by (rule lowers_branch(1) [OF l5]) (use n3 in \<open>simp add: blocks_length\<close>)
    show ?thesis unfolding res
      by (rule lowers_SetInsertPoint [OF l6]) (simp add: blocks_length)
  next
    case (Some else_stat)
    let ?v4 = "SetInsertPoint ?n3
      (v3\<lparr>gen := snd (BasicBlock_Create ''elsebody'' (getParent (gen v3) ?sb) (gen v3))\<rparr>)"
    from run c m Some obtain v5 where e: "visit_statement main_body ?v4 = Inr v5"
      by (simp add: Let_def case_BasicBlock_Create split: sum.splits)
    let ?n5 = "length (module_blocks (gen v5))"
    let ?v6 = "SetInsertPoint ?sb
      (v5\<lparr>gen := snd (BasicBlock_Create ''end'' (getParent (gen v5) ?sb) (gen v5))\<rparr>)"
    let ?v7 = "CreateCondBr cv ?mb ?n3 ?v6"
    let ?v8 = "if getTerminator (gen ?v7) ?mb = None
               then CreateBr ?n5 (SetInsertPoint ?mb ?v7) else ?v7"
    let ?v9 = "if getTerminator (gen ?v8) ?n3 = None
               then CreateBr ?n5 (SetInsertPoint ?n3 ?v8) else ?v8"
    have res: "v' = SetInsertPoint ?n5 ?v9"
      using run c m e Some by (simp add: Let_def case_BasicBlock_Create)
    have l4: "lowers v ?v4" using l3 sb3 by (rule lowers_block_at)
    have s5: "lowers ?v4 v5" using body [OF lowers_cursor [OF l4] e] .
    have l5: "lowers v v5" and n5: "Suc ?n3 \<le> ?n5"
      using lowers_then [OF l4 s5] by (simp_all add: blocks_length)
    have sb5: "?sb < ?n5" using sb3 n5 by simp
    have "lowers v (v5\<lparr>gen := snd (BasicBlock_Create ''end'' (getParent (gen v5) ?sb) (gen v5))\<rparr>)"
      using l5 sb5 by (rule lowers_block)
    then have l6: "lowers v ?v6"
      by (rule lowers_SetInsertPoint) (use sb5 in \<open>simp add: blocks_length\<close>)
    have l7: "lowers v ?v7" using l6 by (rule lowers_Create)
    have l8: "lowers v ?v8"
      by (rule lowers_branch(1) [OF l7]) (use n3 n5 in \<open>simp add: blocks_length\<close>)
    have l9: "lowers v ?v9"
      by (rule lowers_branch(1) [OF l8]) (use n5 in \<open>simp add: blocks_length\<close>)
    show ?thesis unfolding res
      by (rule lowers_SetInsertPoint [OF l9]) (simp add: blocks_length)
  qed
qed

lemma visit_statement_lowers:
  "cursor_valid v \<Longrightarrow> visit_statement s v = Inr v' \<Longrightarrow> lowers v v'"
proof (induction s arbitrary: v v')
  case (while_loop condition loop_body)
  show ?case
    using while_loop.IH while_loop.prems by (rule visit_while_loop_lowers)
next
  case (assignment target source)
  from assignment.prems(2) obtain tv v1 fv v2 where
    t: "visit_expression target v = Inr (tv, v1)"
    and f: "visit_expression source v1 = Inr (fv, v2)"
    and res: "v' = CreateStore (fst (load_if_alloca fv v2)) tv (snd (load_if_alloca fv v2))"
    by (auto split: sum.splits prod.splits)
  have 1: "lowers v v1" using visit_expression_lowers [OF assignment.prems(1) t] by simp
  have 2: "lowers v1 v2" using visit_expression_lowers [OF lowers_cursor [OF 1] f] by simp
  have "lowers v v2" using 1 2 by (rule lowers_trans)
  then show ?case unfolding res by (intro lowers_Create)
next
  case (if_stat condition main_body else_body)
  show ?case
    using if_stat.IH(1) if_stat.prems by (rule visit_if_stat_lowers)
next
  case (expression_stat e)
  then show ?case
    using visit_expression_lowers by (auto split: sum.splits)
next
  case (ret ret_value)
  show ?case
  proof (cases ret_value)
    case None
    then show ?thesis using ret by (auto simp: lowers_Create lowers_refl)
  next
    case (Some e)
    with ret.prems(2) obtain x v1 where
      e: "visit_expression e v = Inr (x, v1)"
      and res: "v' = CreateRet (fst (load_if_alloca x v1)) (snd (load_if_alloca x v1))"
      by (auto split: sum.splits prod.splits)
    have "lowers v v1" using visit_expression_lowers [OF ret.prems(1) e] by simp
    then show ?thesis unfolding res by (intro lowers_Create)
  qed
next
  case (normal_block children)
  show ?case
    using normal_block.IH normal_block.prems(1) normal_block.prems(2) [simplified]
    by (rule visit_children_lowers)
qed

subsection \<open>Compiling one function\<close>

lemma compile_function_Inr:
  assumes "compile_function func g = Inr g'"
  obtains llvm_func g1 v where
    "get_or_declare_function (range_start func) (signature func) g = Inr (llvm_func, g1)"
    and "visit_statement (body func)
           \<lparr>insert_block = length (module_blocks g1),
              gen = snd (BasicBlock_Create ''entry'' llvm_func g1),
              variables = Map.empty\<rparr> = Inr v"
    and "g' = (if ''constructor'' \<in> attributes (signature func)
               then (gen (CreateRetVoid v))
                      \<lparr>constructor_functions :=
                         constructor_functions (gen (CreateRetVoid v)) @ [llvm_func]\<rparr>
               else gen v)"
  using assms
  by (auto simp: compile_function_def Let_def case_BasicBlock_Create
        split: sum.splits if_splits)

lemma block_insts_Insert:
  "cursor_valid bld \<Longrightarrow>
   block_insts (gen (Insert i bld)) (insert_block bld) =
     block_insts (gen bld) (insert_block bld) @ [i]"
  by (simp add: Insert_fields cursor_valid_def block_insts_append_inst)

lemma compile_function_steps:
  assumes decl: "get_or_declare_function position sig g = Inr (llvm_func, g1)"
      and run: "visit_statement b
           \<lparr>insert_block = length (module_blocks g1),
              gen = snd (BasicBlock_Create ''entry'' llvm_func g1),
              variables = Map.empty\<rparr> = Inr v"
  shows "cursor_valid v" and "grows g (gen v)" and "blocks_owned g \<Longrightarrow> blocks_owned (gen v)"
proof -
  let ?g2 = "snd (BasicBlock_Create ''entry'' llvm_func g1)"
  let ?v0 = "\<lparr>insert_block = length (module_blocks g1), gen = ?g2, variables = Map.empty\<rparr>"
  have create: "BasicBlock_Create ''entry'' llvm_func g1 = (length (module_blocks g1), ?g2)"
    by (simp add: BasicBlock_Create_def)
  have "cursor_valid ?v0" by (simp add: cursor_valid_def blocks_length)
  then have low: "lowers ?v0 v" using run by (rule visit_statement_lowers)
  then show "cursor_valid v" by (rule lowers_cursor)
  have "grows g g1" using decl by (rule get_or_declare_function_grows)
  moreover have "grows g1 ?g2" using create by (rule BasicBlock_Create_grows)
  moreover have "grows ?g2 (gen v)" using low by (simp add: lowers_def)
  ultimately show "grows g (gen v)" using grows_trans by blast
  show "blocks_owned (gen v)" if "blocks_owned g"
  proof -
    have "blocks_owned g1" using decl that by (rule get_or_declare_function_owned)
    moreover have "llvm_func < length (module_functions g1)"
      using decl by (rule get_or_declare_function_result)
    ultimately have "blocks_owned ?g2" using create BasicBlock_Create_owned by blast
    then show ?thesis using low by (simp add: lowers_def)
  qed
qed

subsection \<open>Compiling all functions\<close>

lemma compile_function_result:
  assumes run: "compile_function func g = Inr g'" and own: "blocks_owned g"
  shows "blocks_owned g'"
    and "prefix (module_functions g) (module_functions g')"
    and "\<exists>cs. constructor_functions g' = constructor_functions g @ cs \<and>
              list_all (\<lambda>i. i < length (module_functions g')) cs \<and>
              map (\<lambda>i. fn_name (module_functions g' ! i)) cs =
                map (\<lambda>f. registered_name (signature f))
                  (filter (\<lambda>f. ''constructor'' \<in> attributes (signature f)) [func])"
proof -
  from run obtain llvm_func g1 v where
    decl: "get_or_declare_function (range_start func) (signature func) g = Inr (llvm_func, g1)"
    and body: "visit_statement (body func)
           \<lparr>insert_block = length (module_blocks g1),
              gen = snd (BasicBlock_Create ''entry'' llvm_func g1),
              variables = Map.empty\<rparr> = Inr v"
    and res: "g' = (if ''constructor'' \<in> attributes (signature func)
               then (gen (CreateRetVoid v))
                      \<lparr>constructor_functions :=
                         constructor_functions (gen (CreateRetVoid v)) @ [llvm_func]\<rparr>
               else gen v)"
    by (rule compile_function_Inr)
  note steps = compile_function_steps [OF decl body]
  have fns: "module_functions g' = module_functions (gen v)"
    using res by (simp add: CreateRetVoid_def Insert_fields append_inst_fields)
  have parents: "map bb_parent (module_blocks g') = map bb_parent (module_blocks (gen v))"
    using res by (simp add: CreateRetVoid_def Insert_fields append_inst_fields)
  show "blocks_owned g'"
    using steps(3) [OF own] fns parents by (simp add: blocks_owned_def)
  show "prefix (module_functions g) (module_functions g')"
    using steps(2) fns by (simp add: grows_def)
  have ctors: "constructor_functions (gen v) = constructor_functions g"
    using steps(2) by (simp add: grows_def)
  have f1: "llvm_func < length (module_functions g1)"
    and nm1: "fn_name (module_functions g1 ! llvm_func) = registered_name (signature func)"
    using get_or_declare_function_result [OF decl] by simp_all
  have "grows g1 (gen v)"
  proof -
    have "grows g1 (snd (BasicBlock_Create ''entry'' llvm_func g1))"
      using BasicBlock_Create_grows by (metis prod.collapse)
    moreover have "grows (snd (BasicBlock_Create ''entry'' llvm_func g1)) (gen v)"
    proof -
      have "cursor_valid \<lparr>insert_block = length (module_blocks g1),
              gen = snd (BasicBlock_Create ''entry'' llvm_func g1),
              variables = Map.empty\<rparr>"
        by (simp add: cursor_valid_def blocks_length)
      from visit_statement_lowers [OF this body] show ?thesis by (simp add: lowers_def)
    qed
    ultimately show ?thesis by (rule grows_trans)
  qed
  then have f: "llvm_func < length (module_functions g')"
    and nm: "fn_name (module_functions g' ! llvm_func) = registered_name (signature func)"
    using f1 nm1 fns grows_functions_length [of g1 "gen v"] grows_function_nth [of g1 "gen v" llvm_func]
    by simp_all
  show "\<exists>cs. constructor_functions g' = constructor_functions g @ cs \<and>
              list_all (\<lambda>i. i < length (module_functions g')) cs \<and>
              map (\<lambda>i. fn_name (module_functions g' ! i)) cs =
                map (\<lambda>f. registered_name (signature f))
                  (filter (\<lambda>f. ''constructor'' \<in> attributes (signature f)) [func])"
  proof (cases "''constructor'' \<in> attributes (signature func)")
    case True
    then have "constructor_functions g' = constructor_functions g @ [llvm_func]"
      using res ctors by (simp add: CreateRetVoid_def Insert_fields append_inst_fields)
    then show ?thesis using True f nm by simp
  next
    case False
    then have "constructor_functions g' = constructor_functions g"
      using res ctors by simp
    then show ?thesis using False by simp
  qed
qed

lemma compile_functions_result:
  assumes "compile_functions funcs g = Inr g'" and "blocks_owned g"
  shows "blocks_owned g' \<and> prefix (module_functions g) (module_functions g') \<and>
         (\<exists>cs. constructor_functions g' = constructor_functions g @ cs \<and>
              list_all (\<lambda>i. i < length (module_functions g')) cs \<and>
              map (\<lambda>i. fn_name (module_functions g' ! i)) cs =
                map (\<lambda>f. registered_name (signature f))
                  (filter (\<lambda>f. ''constructor'' \<in> attributes (signature f)) funcs))"
  using assms
proof (induction funcs arbitrary: g)
  case Nil
  then show ?case by simp
next
  case (Cons func funcs)
  from Cons.prems(1) obtain g1 where
    first: "compile_function func g = Inr g1" and rest: "compile_functions funcs g1 = Inr g'"
    by (auto split: sum.splits)
  note r1 = compile_function_result [OF first Cons.prems(2)]
  from r1(3) obtain cs1 where
    c1: "constructor_functions g1 = constructor_functions g @ cs1"
    and v1: "list_all (\<lambda>i. i < length (module_functions g1)) cs1"
    and n1: "map (\<lambda>i. fn_name (module_functions g1 ! i)) cs1 =
                map (\<lambda>f. registered_name (signature f))
                  (filter (\<lambda>f. ''constructor'' \<in> attributes (signature f)) [func])"
    by blast
  from Cons.IH [OF rest r1(1)] obtain cs2 where
    own: "blocks_owned g'" and pre: "prefix (module_functions g1) (module_functions g')"
    and c2: "constructor_functions g' = constructor_functions g1 @ cs2"
    and v2: "list_all (\<lambda>i. i < length (module_functions g')) cs2"
    and n2: "map (\<lambda>i. fn_name (module_functions g' ! i)) cs2 =
                map (\<lambda>f. registered_name (signature f))
                  (filter (\<lambda>f. ''constructor'' \<in> attributes (signature f)) funcs)"
    by blast
  have len: "length (module_functions g1) \<le> length (module_functions g')"
    using pre by (rule prefix_length_le)
  have v1': "list_all (\<lambda>i. i < length (module_functions g')) cs1"
    using v1 len by (auto simp: list_all_iff)
  have "map (\<lambda>i. fn_name (module_functions g' ! i)) cs1 =
        map (\<lambda>i. fn_name (module_functions g1 ! i)) cs1"
    using v1 pre by (auto simp: list_all_iff prefix_nth)
  then have n1': "map (\<lambda>i. fn_name (module_functions g' ! i)) cs1 =
                map (\<lambda>f. registered_name (signature f))
                  (filter (\<lambda>f. ''constructor'' \<in> attributes (signature f)) [func])"
    using n1 by simp
  have "constructor_functions g' = constructor_functions g @ (cs1 @ cs2)"
    using c1 c2 by simp
  moreover have "list_all (\<lambda>i. i < length (module_functions g')) (cs1 @ cs2)"
    using v1' v2 by simp
  moreover have "map (\<lambda>i. fn_name (module_functions g' ! i)) (cs1 @ cs2) =
                map (\<lambda>f. registered_name (signature f))
                  (filter (\<lambda>f. ''constructor'' \<in> attributes (signature f)) (func # funcs))"
    using n1' n2 by (simp split: if_splits)
  moreover have "prefix (module_functions g) (module_functions g')"
    using r1(2) pre by (rule prefix_order.trans)
  ultimately show ?case using own by blast
qed

lemma compile_extern_functions_result:
  assumes "compile_extern_functions funcs g = Inr g'" and "blocks_owned g"
  shows "blocks_owned g' \<and> constructor_functions g' = constructor_functions g"
  using assms
proof (induction funcs arbitrary: g)
  case Nil
  then show ?case by simp
next
  case (Cons func funcs)
  from Cons.prems(1) obtain f g1 where
    first: "get_or_declare_function (ext_range_start func) (ext_signature func) g = Inr (f, g1)"
    and rest: "compile_extern_functions funcs g1 = Inr g'"
    by (auto simp: compile_extern_function_def split: sum.splits)
  have "blocks_owned g1" using first Cons.prems(2) by (rule get_or_declare_function_owned)
  from Cons.IH [OF rest this] get_or_declare_function_result(3) [OF first]
  show ?case by simp
qed

subsection \<open>The entry function\<close>

lemma call_constructors_result:
  assumes "cursor_valid bld"
  shows "insert_block (call_constructors cs bld) = insert_block bld \<and>
         module_functions (gen (call_constructors cs bld)) = module_functions (gen bld) \<and>
         constructor_functions (gen (call_constructors cs bld)) = constructor_functions (gen bld) \<and>
         module_blocks (gen (call_constructors cs bld)) =
           (module_blocks (gen bld))
             [insert_block bld := (module_blocks (gen bld) ! insert_block bld)
                \<lparr>bb_insts := bb_insts (module_blocks (gen bld) ! insert_block bld) @
                              map (\<lambda>f. call_inst f []) cs\<rparr>]"
  using assms
proof (induction cs arbitrary: bld)
  case Nil
  then show ?case by simp
next
  case (Cons c cs)
  let ?b1 = "snd (CreateCall c [] bld)"
  have valid: "cursor_valid ?b1"
    using Cons.prems by (simp add: cursor_valid_def CreateCall_def Insert_fields append_inst_fields)
  from Cons.IH [OF valid] Cons.prems show ?case
    by (simp add: CreateCall_def Insert_fields append_inst_fields append_inst_def cursor_valid_def)
qed

lemma blocks_owned_new_code_generation: "blocks_owned (new_code_generation sz)"
  by (simp add: blocks_owned_def new_code_generation_def)

lemma generate_Inr:
  assumes "generate module_body g = Inr g'"
  obtains g1 g2 where
    "compile_extern_functions (collected_extern_functions module_body) g = Inr g1"
    and "compile_functions (collected_functions module_body) g1 = Inr g2"
    and "g' = gen (CreateRetVoid (call_constructors (constructor_functions g2)
                \<lparr>insert_block = length (module_blocks g2),
                   gen = snd (BasicBlock_Create ''entry'' (length (module_functions g2))
                          (snd (Function_Create (function_ty void_ty [] False) InternalLinkage
                                  ''entry'' g2)))\<rparr>))"
  using assms
  by (auto simp: generate_def Let_def Function_Create_def BasicBlock_Create_def
        split: sum.splits)

subsection \<open>What one inserted instruction does to the current block\<close>

lemma get_llvm_type_size_type:
  "size_type g' = size_type g \<Longrightarrow> get_llvm_type g' t = get_llvm_type g t"
proof (cases t)
  case (built_in b)
  assume "size_type g' = size_type g"
  with built_in show ?thesis by (cases b) simp_all
next
  case (class_type c)
  then show ?thesis by simp
qed

lemma cursor_valid_Insert: "cursor_valid (Insert i bld) = cursor_valid bld"
  by (simp add: cursor_valid_def Insert_fields append_inst_fields)

lemma next_inst_Insert: "cursor_valid bld \<Longrightarrow> next_inst (Insert i bld) = Suc (next_inst bld)"
  by (simp add: next_inst_def Insert_fields cursor_valid_def block_insts_append_inst)

lemma current_block_Insert:
  "cursor_valid bld \<Longrightarrow>
   block_insts (gen (Insert i bld)) (insert_block (Insert i bld)) =
     block_insts (gen bld) (insert_block bld) @ [i]"
  by (simp add: Insert_fields cursor_valid_def block_insts_append_inst)

lemma visit_variable_ref_fresh:
  assumes "variables v x = None" and "get_llvm_type (gen v) (var_type x) = Inr ty"
  shows "visit_expression (variable_ref x) v =
           Inr (alloca_value (insert_block v) (next_inst v), Insert (alloca_inst ty) v)"
  using assms by (simp add: CreateAlloca_def)

subsection \<open>Further facts about the visitor\<close>

text \<open>
  The map of variables is never written; the else branch of an if statement is tested for
  presence and never read; the operator switch only reaches the integer forms, and the
  signed ones where signedness matters; and two extern signatures, whose mangled name the
  resolver leaves empty, share one entry of the function-type cache, so the second is
  declared with the type of the first.
\<close>

lemma variables_never_recorded:
  "cursor_valid v \<Longrightarrow> visit_statement s v = Inr v' \<Longrightarrow> variables v' = variables v"
  using visit_statement_lowers by (auto simp: lowers_def)

lemma else_body_never_read:
  "visit_statement (if_stat condition main_body (Some else1)) v =
   visit_statement (if_stat condition main_body (Some else2)) v"
  by (simp cong: sum.case_cong)

lemma binary_operation_opcode:
  assumes "binary_operation position operation l r v = Inr (x, v')"
  shows "\<exists>opc nm. CreateBinary opc l r nm v = (x, v') \<and>
           opc \<in> {Add, Sub, Mul, SDiv, ICmpEQ, ICmpNE, ICmpSLT, ICmpSLE, ICmpSGT, ICmpSGE}"
  using assms by (cases operation) (auto simp: binary_operation_def)

lemma extern_signatures_share_cache_entry:
  "case get_or_declare_function (1, 1)
          (extern_signature ''puts'' [local_variable 0 ''s'' string] (built_in i32))
          (new_code_generation (int_ty 64)) of
     Inl e \<Rightarrow> False
   | Inr (puts, g1) \<Rightarrow>
       (case get_or_declare_function (2, 1)
               (extern_signature ''exit'' [local_variable 0 ''code'' i32] (built_in void_tag)) g1 of
          Inl e \<Rightarrow> False
        | Inr (exit, g2) \<Rightarrow>
            map fn_name (module_functions g2) = [''puts'', ''exit''] \<and>
            fn_type (module_functions g2 ! exit) = fn_type (module_functions g2 ! puts) \<and>
            fn_type (module_functions g2 ! exit) =
              function_ty (int_ty 32)
                [struct_ty [int_ty 64, pointer_ty (int_ty 8) 0] False] False)"
  by (simp add: extern_signature_def local_variable_def lowering_defs builder_defs let_values)

subsection \<open>Expressions insert no load\<close>

lemma load_insts_append_inst:
  assumes "\<not> isa_LoadInst i"
  shows "load_insts (append_inst b i g) = load_insts g"
proof (cases "b < length (module_blocks g)")
  case True
  then show ?thesis
    using assms unfolding load_insts_def append_inst_def
    by (intro nth_equalityI) (auto simp: nth_list_update)
next
  case False
  then have "(module_blocks g)
      [b := (module_blocks g ! b)\<lparr>bb_insts := bb_insts (module_blocks g ! b) @ [i]\<rparr>] =
      module_blocks g"
    by (intro list_update_beyond) simp
  then show ?thesis by (simp add: load_insts_def append_inst_def)
qed

lemma load_insts_Insert:
  "\<not> isa_LoadInst i \<Longrightarrow> load_insts (gen (Insert i bld)) = load_insts (gen bld)"
  by (simp add: Insert_fields load_insts_append_inst)

lemma load_insts_Create:
  "load_insts (gen (snd (CreateAlloca ty bld))) = load_insts (gen bld)"
  "load_insts (gen (snd (CreateCall f args bld))) = load_insts (gen bld)"
  "load_insts (gen (snd (CreateBinary opc l r nm bld))) = load_insts (gen bld)"
  by (simp_all add: CreateAlloca_def CreateCall_def CreateBinary_def load_insts_Insert)

lemma load_insts_declare:
  "get_or_declare_function position sig g = Inr (f, g') \<Longrightarrow> load_insts g' = load_insts g"
  using get_or_declare_function_result(2) [of position sig g f g']
  by (simp add: load_insts_def)

lemma visit_arguments_no_load:
  assumes "\<And>e v x v'. e \<in> set es \<Longrightarrow> visit_expression e v = Inr (x, v') \<Longrightarrow>
              load_insts (gen v') = load_insts (gen v)"
      and "visit_arguments es v = Inr (xs, v')"
  shows "load_insts (gen v') = load_insts (gen v)"
  using assms
proof (induction es arbitrary: v xs v')
  case Nil
  then show ?case by simp
next
  case (Cons e es)
  from Cons.prems(2) obtain x v1 ys where
    e: "visit_expression e v = Inr (x, v1)" and rest: "visit_arguments es v1 = Inr (ys, v')"
    by (auto split: sum.splits)
  have 1: "load_insts (gen v1) = load_insts (gen v)"
    using Cons.prems(1) [OF _ e] by simp
  have tail: "load_insts (gen u') = load_insts (gen u)"
    if "e' \<in> set es" "visit_expression e' u = Inr (y, u')" for e' u y u'
    using Cons.prems(1) [of e' u y u'] that by simp
  have "load_insts (gen v') = load_insts (gen v1)"
    using Cons.IH [OF tail rest] by simp
  with 1 show ?case by simp
qed

lemma visit_expression_no_load:
  "visit_expression e v = Inr (x, v') \<Longrightarrow> load_insts (gen v') = load_insts (gen v)"
proof (induction e arbitrary: v x v')
  case (symbol_wrapper position sig)
  then show ?case by (auto split: sum.splits simp: load_insts_declare)
next
  case (call position callee arguments)
  from call.prems obtain func v1 args v2 where
    callee: "visit_expression callee v = Inr (function_value func, v1)"
    and args: "visit_arguments arguments v1 = Inr (args, v2)"
    and res: "(x, v') = CreateCall func args v2"
    by (auto split: sum.splits llvm_value.splits)
  have v': "v' = snd (CreateCall func args v2)" using res by (metis snd_conv)
  have "load_insts (gen v1) = load_insts (gen v)" using call.IH(1) [OF callee] .
  moreover have "load_insts (gen v2) = load_insts (gen v1)"
    using visit_arguments_no_load [OF _ args] call.IH(2) by blast
  ultimately show ?case unfolding v' by (simp add: load_insts_Create)
next
  case (bool_literal b)
  then show ?case by auto
next
  case (variable_ref var)
  then show ?case
    by (auto split: option.splits sum.splits
          simp: CreateAlloca_def load_insts_Insert)
next
  case (number_literal position n eval_type)
  then show ?case by (auto split: sum.splits)
next
  case (binary position left operation right)
  from binary.prems obtain l v1 r v2 where
    left: "visit_expression left v = Inr (l, v1)"
    and right: "visit_expression right v1 = Inr (r, v2)"
    and res: "binary_operation position operation l r v2 = Inr (x, v')"
    by (auto split: sum.splits)
  from binary_operation_opcode [OF res] obtain opc nm where
    "CreateBinary opc l r nm v2 = (x, v')" by blast
  then have v': "v' = snd (CreateBinary opc l r nm v2)" by (metis snd_conv)
  show ?case
    unfolding v' using binary.IH(1) [OF left] binary.IH(2) [OF right]
    by (simp add: load_insts_Create)
qed

subsection \<open>The arguments of a call, one by one\<close>

lemma visit_arguments_chain:
  assumes "cursor_valid v" and "visit_arguments es v = Inr (xs, v')"
  shows "\<exists>vs. length vs = Suc (length es) \<and> vs ! 0 = v \<and> vs ! length es = v' \<and>
              length xs = length es \<and>
              (\<forall>i<length es. visit_expression (es ! i) (vs ! i) = Inr (xs ! i, vs ! Suc i)) \<and>
              (\<forall>i\<le>length es. lowers v (vs ! i) \<and> insert_block (vs ! i) = insert_block v)"
  using assms
proof (induction es arbitrary: v xs v')
  case Nil
  then have "v' = v" "xs = []" by simp_all
  then have "length [v] = Suc (length ([]::expression list)) \<and> [v] ! 0 = v \<and>
             [v] ! length ([]::expression list) = v' \<and> length xs = length ([]::expression list) \<and>
             (\<forall>i<length ([]::expression list).
                visit_expression ([] ! i) ([v] ! i) = Inr (xs ! i, [v] ! Suc i)) \<and>
             (\<forall>i\<le>length ([]::expression list).
                lowers v ([v] ! i) \<and> insert_block ([v] ! i) = insert_block v)"
    using Nil.prems(1) by (simp add: lowers_refl)
  then show ?case by blast
next
  case (Cons e es)
  from Cons.prems(2) obtain x v1 ys where
    e: "visit_expression e v = Inr (x, v1)" and rest: "visit_arguments es v1 = Inr (ys, v')"
    and xs: "xs = x # ys"
    by (auto split: sum.splits)
  have l1: "lowers v v1" and ib1: "insert_block v1 = insert_block v"
    using visit_expression_lowers [OF Cons.prems(1) e] by simp_all
  have valid1: "cursor_valid v1" using l1 by (rule lowers_cursor)
  from Cons.IH [OF valid1 rest] obtain vs where
    len: "length vs = Suc (length es)" and first: "vs ! 0 = v1" and final: "vs ! length es = v'"
    and lys: "length ys = length es"
    and steps: "\<forall>i<length es. visit_expression (es ! i) (vs ! i) = Inr (ys ! i, vs ! Suc i)"
    and inv: "\<forall>i\<le>length es. lowers v1 (vs ! i) \<and> insert_block (vs ! i) = insert_block v1"
    by blast
  let ?vs = "v # vs"
  have "visit_expression ((e # es) ! i) (?vs ! i) = Inr (xs ! i, ?vs ! Suc i)"
    if "i < length (e # es)" for i
  proof (cases i)
    case 0
    then show ?thesis using e first xs by simp
  next
    case (Suc j)
    then show ?thesis using that steps xs by simp
  qed
  moreover have "lowers v (?vs ! i) \<and> insert_block (?vs ! i) = insert_block v"
    if "i \<le> length (e # es)" for i
  proof (cases i)
    case 0
    then show ?thesis using Cons.prems(1) by (simp add: lowers_refl)
  next
    case (Suc j)
    then have "lowers v1 (vs ! j) \<and> insert_block (vs ! j) = insert_block v1"
      using that inv by simp
    then show ?thesis using Suc l1 ib1 lowers_trans by auto
  qed
  ultimately have "length ?vs = Suc (length (e # es)) \<and> ?vs ! 0 = v \<and>
      ?vs ! length (e # es) = v' \<and> length xs = length (e # es) \<and>
      (\<forall>i<length (e # es). visit_expression ((e # es) ! i) (?vs ! i) = Inr (xs ! i, ?vs ! Suc i)) \<and>
      (\<forall>i\<le>length (e # es). lowers v (?vs ! i) \<and> insert_block (?vs ! i) = insert_block v)"
    using len final lys xs by simp
  then show ?case by blast
qed

section \<open>Properties of type lowering\<close>

text \<open>
  C7, as the code has it. A user-defined type fails with a \<^verbatim>\<open>std::runtime_error\<close>, which
  is not the compiler's own exception and has no source position; a built-in tag that no
  \<^verbatim>\<open>case\<close> names fails with the compiler's exception at the fixed position \<open>(0, 0)\<close>.
  Type lowering fails on exactly these descriptors and on no other.
\<close>

theorem get_llvm_type_failures:
  "(\<forall>c. get_llvm_type g (class_type c) =
          Inl (runtime_error ''TODO: class types are not supported''))
   \<and> get_llvm_type g (built_in other_tag) =
          Inl (compiler_exception (0, 0) ''internal compiler error: unknown type'')
   \<and> (\<forall>t. isl (get_llvm_type g t) =
          (case t of class_type c \<Rightarrow> True | built_in b \<Rightarrow> b = other_tag))"
proof -
  have "isl (get_llvm_type g t) =
          (case t of class_type c \<Rightarrow> True | built_in b \<Rightarrow> b = other_tag)" for t
  proof (cases t)
    case (built_in b)
    then show ?thesis by (cases b) simp_all
  next
    case (class_type c)
    then show ?thesis by simp
  qed
  then show ?thesis by simp
qed

text \<open>
  C7 as stated fails: the error raised for a user-defined type is not an
  internal-compiler-error and carries no source position.
\<close>

theorem get_llvm_type_class_type_no_position:
  "case get_llvm_type (new_code_generation (int_ty 64)) (class_type ''Point'') of
     Inl e \<Rightarrow> \<not> is_compiler_exception e \<and> error_position e = None
   | Inr t \<Rightarrow> False"
  by simp

text \<open>
  C8, as the code has it. Two built-in tags are lowered to the same type exactly when they
  are the same tag or the unsigned and the signed integer tag of one width; in particular
  the same tag always gives the same type.
\<close>

theorem get_llvm_type_same_type_iff:
  "(get_llvm_type g (built_in a) = get_llvm_type g (built_in b)) =
     (a = b \<or> {a, b} \<in> {{u8, i8}, {u16, i16}, {u32, i32}, {u64, i64}})"
  by (cases a; cases b; simp add: doubleton_eq_iff)

text \<open>
  C8 as stated fails: the tags \<open>u8\<close> and \<open>i8\<close> differ and are lowered to the same type.
\<close>

theorem get_llvm_type_u8_i8_same:
  "u8 \<noteq> i8 \<and>
   get_llvm_type (new_code_generation (int_ty 64)) (built_in u8) =
   get_llvm_type (new_code_generation (int_ty 64)) (built_in i8)"
  by simp

section \<open>Properties of function signature lowering\<close>




section \<open>Properties of body lowering\<close>

text \<open>
  C1 fails on the code. The function \<^verbatim>\<open>fn f() { return; if (true) {} else {} }\<close> is
  lowered to an entry block that holds a return followed by a conditional branch: the
  branch out of the block before an if with an else is inserted without asking whether the
  block has a terminator (the branch of an if without an else does ask).
\<close>

theorem return_then_if_else_two_terminators:
  "case compile_function
          (void_function ''f'' {}
             [ret None,
              if_stat (bool_literal True) (normal_block []) (Some (normal_block []))])
          (new_code_generation (int_ty 64)) of
     Inl e \<Rightarrow> False
   | Inr g \<Rightarrow>
       getParent g 0 = 0 \<and>
       block_insts g 0 = [ret_void_inst, cond_br_inst (constant_int 1 1) 1 2] \<and>
       filter is_terminator (block_insts g 0) =
         [ret_void_inst, cond_br_inst (constant_int 1 1) 1 2]"
  by (simp add: example_defs lowering_defs builder_defs let_values)

text \<open>
  C2 fails on the code. In \<^verbatim>\<open>fn f() { if (true) { return; } else {} }\<close> the else branch
  is empty, and the block made for it receives the return of the main body: the main body
  is lowered a second time in place of the else branch.
\<close>

theorem if_else_lowers_main_body_twice:
  "case compile_function
          (void_function ''f'' {}
             [if_stat (bool_literal True) (normal_block [ret None]) (Some (normal_block []))])
          (new_code_generation (int_ty 64)) of
     Inl e \<Rightarrow> False
   | Inr g \<Rightarrow>
       map bb_name (module_blocks g) = [''entry'', ''mainbody'', ''elsebody'', ''end''] \<and>
       block_insts g 0 = [cond_br_inst (constant_int 1 1) 1 2] \<and>
       block_insts g 1 = [ret_void_inst] \<and>
       block_insts g 2 = [ret_void_inst] \<and>
       block_insts g 3 = []"
  by (simp add: example_defs lowering_defs builder_defs let_values)

text \<open>
  C3 fails on the code. In \<^verbatim>\<open>fn f() { x = x; }\<close> the two references to the one variable
  \<open>x\<close> allocate two stack slots: the slot of the first reference is never recorded in the
  map, so the second reference finds nothing there.
\<close>

theorem variable_gets_two_slots:
  "case compile_function
          (void_function ''f'' {}
             [assignment (variable_ref (local_variable 0 ''x'' i32))
                         (variable_ref (local_variable 0 ''x'' i32))])
          (new_code_generation (int_ty 64)) of
     Inl e \<Rightarrow> False
   | Inr g \<Rightarrow>
       block_insts g 0 =
         [alloca_inst (int_ty 32), alloca_inst (int_ty 32),
          load_inst (alloca_value 0 1),
          store_inst (instruction_value 0 2) (alloca_value 0 0)]"
  by (simp add: example_defs lowering_defs builder_defs let_values)

text \<open>
  C5 fails on the code. In \<^verbatim>\<open>fn f() { x + y; }\<close> with \<open>x\<close> and \<open>y\<close> of type \<open>f64\<close> the
  addition is lowered to the integer instruction, not to the floating-point one.
\<close>

theorem float_operands_integer_add:
  "case compile_function
          (void_function ''f'' {}
             [expression_stat
                (binary (2, 5) (variable_ref (local_variable 0 ''x'' f64)) symbol_add
                               (variable_ref (local_variable 1 ''y'' f64)))])
          (new_code_generation (int_ty 64)) of
     Inl e \<Rightarrow> False
   | Inr g \<Rightarrow>
       block_insts g 0 =
         [alloca_inst double_ty, alloca_inst double_ty,
          binary_inst Add (alloca_value 0 0) (alloca_value 0 1) ''addtmp'']"
  by (simp add: example_defs lowering_defs builder_defs let_values)

text \<open>
  C10. Let the builder stand on a block, and let a call be lowered with success. Then the
  callee was lowered to a function, and the arguments were lowered one after the other,
  each by the lowering of expressions from the state the one before left; the call
  instruction, inserted right after the last of them, receives exactly the values these
  lowerings produced, in order. An argument that is a reference to a variable without a
  slot in the map is passed as the stack slot allocated for it, and the whole lowering of
  the call adds no load to any block of the module. With \<open>x\<close> a variable without a slot
  whose type lowers to \<open>ty\<close>, the call on the one argument \<open>x\<close> inserts the allocation and
  the call on the slot; returning \<open>x\<close> and assigning from \<open>x\<close> do load: the block receives
  the allocation, a load from the slot, and the return or store of the loaded value.
\<close>

theorem call_arguments_not_loaded:
  assumes valid: "cursor_valid v"
      and slot: "variables v x = None"
      and ty: "get_llvm_type (gen v) (var_type x) = Inr ty"
      and run: "visit_expression (call position callee arguments) v = Inr (r, v')"
  shows "(\<exists>func vs args.
            length vs = Suc (length arguments) \<and> length args = length arguments \<and>
            visit_expression callee v = Inr (function_value func, vs ! 0) \<and>
            (\<forall>i<length arguments.
               visit_expression (arguments ! i) (vs ! i) = Inr (args ! i, vs ! Suc i)) \<and>
            (\<forall>i<length arguments. \<forall>y.
               arguments ! i = variable_ref y \<longrightarrow> variables v y = None \<longrightarrow>
               args ! i = alloca_value (insert_block v) (next_inst (vs ! i))) \<and>
            r = instruction_value (insert_block v) (next_inst (vs ! length arguments)) \<and>
            block_insts (gen v') (insert_block v) =
              block_insts (gen (vs ! length arguments)) (insert_block v) @
                [call_inst func args] \<and>
            (\<exists>v''. visit_expression (call position callee [variable_ref x]) v =
                     Inr (instruction_value (insert_block v) (Suc (next_inst (vs ! 0))), v'') \<and>
                   block_insts (gen v'') (insert_block v) =
                     block_insts (gen (vs ! 0)) (insert_block v) @
                       [alloca_inst ty,
                        call_inst func [alloca_value (insert_block v) (next_inst (vs ! 0))]])) \<and>
         load_insts (gen v') = load_insts (gen v) \<and>
         (\<exists>v''. visit_statement (ret (Some (variable_ref x))) v = Inr v'' \<and>
               block_insts (gen v'') (insert_block v) =
                 block_insts (gen v) (insert_block v) @
                   [alloca_inst ty,
                    load_inst (alloca_value (insert_block v) (next_inst v)),
                    ret_inst (instruction_value (insert_block v) (Suc (next_inst v)))]) \<and>
         (\<exists>v''. visit_statement (assignment (variable_ref x) (variable_ref x)) v = Inr v'' \<and>
               block_insts (gen v'') (insert_block v) =
                 block_insts (gen v) (insert_block v) @
                   [alloca_inst ty, alloca_inst ty,
                    load_inst (alloca_value (insert_block v) (Suc (next_inst v))),
                    store_inst (instruction_value (insert_block v) (Suc (Suc (next_inst v))))
                      (alloca_value (insert_block v) (next_inst v))])"
proof -
  from run obtain func v1 args v2 where
    callee: "visit_expression callee v = Inr (function_value func, v1)"
    and argsrun: "visit_arguments arguments v1 = Inr (args, v2)"
    and res: "CreateCall func args v2 = (r, v')"
    by (auto split: sum.splits llvm_value.splits)
  have low1: "lowers v v1" and ib1: "insert_block v1 = insert_block v"
    using visit_expression_lowers [OF valid callee] by simp_all
  have valid1: "cursor_valid v1" using low1 by (rule lowers_cursor)
  have vars1: "variables v1 = variables v" using low1 by (simp add: lowers_def)
  have slot1: "variables v1 x = None" using vars1 slot by simp
  have ty1: "get_llvm_type (gen v1) (var_type x) = Inr ty"
    using low1 ty get_llvm_type_size_type [of "gen v1" "gen v"] by (simp add: lowers_def grows_def)
  from visit_arguments_chain [OF valid1 argsrun] obtain vs where
    len: "length vs = Suc (length arguments)" and first: "vs ! 0 = v1"
    and final: "vs ! length arguments = v2" and largs: "length args = length arguments"
    and steps: "\<forall>i<length arguments.
                  visit_expression (arguments ! i) (vs ! i) = Inr (args ! i, vs ! Suc i)"
    and inv: "\<forall>i\<le>length arguments. lowers v1 (vs ! i) \<and> insert_block (vs ! i) = insert_block v1"
    by blast
  have valid2: "cursor_valid v2" and ib2: "insert_block v2 = insert_block v"
    using inv final ib1 lowers_cursor by auto
  have slots: "args ! i = alloca_value (insert_block v) (next_inst (vs ! i))"
    if "i < length arguments" "arguments ! i = variable_ref y" "variables v y = None" for i y
  proof -
    have "lowers v1 (vs ! i)" and ibi: "insert_block (vs ! i) = insert_block v"
      using inv that(1) ib1 by simp_all
    then have "variables (vs ! i) y = None" using vars1 that(3) by (simp add: lowers_def)
    moreover have "visit_expression (variable_ref y) (vs ! i) = Inr (args ! i, vs ! Suc i)"
      using steps that(1,2) by auto
    ultimately show ?thesis
      using ibi by (auto simp: CreateAlloca_def split: sum.splits)
  qed
  have result: "r = instruction_value (insert_block v) (next_inst (vs ! length arguments))"
    using res final ib2 by (auto simp: CreateCall_def)
  have v': "v' = Insert (call_inst func args) v2" using res by (auto simp: CreateCall_def)
  have block: "block_insts (gen v') (insert_block v) =
                 block_insts (gen (vs ! length arguments)) (insert_block v) @
                   [call_inst func args]"
    unfolding v' final
    using current_block_Insert [OF valid2, of "call_inst func args"] ib2
    by (simp add: Insert_fields)
  let ?a1 = "Insert (alloca_inst ty) v1"
  have arg: "visit_arguments [variable_ref x] v1 =
               Inr ([alloca_value (insert_block v) (next_inst v1)], ?a1)"
    using visit_variable_ref_fresh [OF slot1 ty1] ib1 by simp
  have single: "\<exists>v''. visit_expression (call position callee [variable_ref x]) v =
                  Inr (instruction_value (insert_block v) (Suc (next_inst (vs ! 0))), v'') \<and>
               block_insts (gen v'') (insert_block v) =
                 block_insts (gen (vs ! 0)) (insert_block v) @
                   [alloca_inst ty,
                    call_inst func [alloca_value (insert_block v) (next_inst (vs ! 0))]]"
    unfolding first
    using callee arg valid1 ib1
      current_block_Insert [OF valid1, of "alloca_inst ty"]
      current_block_Insert [of ?a1 "call_inst func [alloca_value (insert_block v) (next_inst v1)]"]
    by (simp add: CreateCall_def Insert_fields next_inst_Insert cursor_valid_Insert)
  have noload: "load_insts (gen v') = load_insts (gen v)"
    using run by (rule visit_expression_no_load)
  let ?a = "Insert (alloca_inst ty) v"
  let ?l = "Insert (load_inst (alloca_value (insert_block v) (next_inst v))) ?a"
  have returned: "\<exists>v''. visit_statement (ret (Some (variable_ref x))) v = Inr v'' \<and>
               block_insts (gen v'') (insert_block v) =
                 block_insts (gen v) (insert_block v) @
                   [alloca_inst ty,
                    load_inst (alloca_value (insert_block v) (next_inst v)),
                    ret_inst (instruction_value (insert_block v) (Suc (next_inst v)))]"
    using visit_variable_ref_fresh [OF slot ty] valid
      current_block_Insert [OF valid, of "alloca_inst ty"]
      current_block_Insert [of ?a "load_inst (alloca_value (insert_block v) (next_inst v))"]
      current_block_Insert [of ?l "ret_inst (instruction_value (insert_block v) (Suc (next_inst v)))"]
    by (simp add: load_if_alloca_def CreateLoad_def CreateRet_def Insert_fields next_inst_Insert
          cursor_valid_Insert)
  have slot_a: "variables ?a x = None" using slot by (simp add: Insert_variables)
  have ty_a: "get_llvm_type (gen ?a) (var_type x) = Inr ty"
    using ty get_llvm_type_size_type [of "gen ?a" "gen v"]
    by (simp add: Insert_fields append_inst_fields)
  let ?b = "Insert (alloca_inst ty) ?a"
  let ?c = "Insert (load_inst (alloca_value (insert_block v) (Suc (next_inst v)))) ?b"
  have assigned: "\<exists>v''. visit_statement (assignment (variable_ref x) (variable_ref x)) v = Inr v'' \<and>
               block_insts (gen v'') (insert_block v) =
                 block_insts (gen v) (insert_block v) @
                   [alloca_inst ty, alloca_inst ty,
                    load_inst (alloca_value (insert_block v) (Suc (next_inst v))),
                    store_inst (instruction_value (insert_block v) (Suc (Suc (next_inst v))))
                      (alloca_value (insert_block v) (next_inst v))]"
    using visit_variable_ref_fresh [OF slot ty] visit_variable_ref_fresh [OF slot_a ty_a] valid
      current_block_Insert [OF valid, of "alloca_inst ty"]
      current_block_Insert [of ?a "alloca_inst ty"]
      current_block_Insert [of ?b "load_inst (alloca_value (insert_block v) (Suc (next_inst v)))"]
      current_block_Insert [of ?c "store_inst (instruction_value (insert_block v) (Suc (Suc (next_inst v))))
                      (alloca_value (insert_block v) (next_inst v))"]
    by (simp add: load_if_alloca_def CreateLoad_def CreateStore_def Insert_fields next_inst_Insert
          cursor_valid_Insert)
  have chain: "\<exists>func vs args.
            length vs = Suc (length arguments) \<and> length args = length arguments \<and>
            visit_expression callee v = Inr (function_value func, vs ! 0) \<and>
            (\<forall>i<length arguments.
               visit_expression (arguments ! i) (vs ! i) = Inr (args ! i, vs ! Suc i)) \<and>
            (\<forall>i<length arguments. \<forall>y.
               arguments ! i = variable_ref y \<longrightarrow> variables v y = None \<longrightarrow>
               args ! i = alloca_value (insert_block v) (next_inst (vs ! i))) \<and>
            r = instruction_value (insert_block v) (next_inst (vs ! length arguments)) \<and>
            block_insts (gen v') (insert_block v) =
              block_insts (gen (vs ! length arguments)) (insert_block v) @
                [call_inst func args] \<and>
            (\<exists>v''. visit_expression (call position callee [variable_ref x]) v =
                     Inr (instruction_value (insert_block v) (Suc (next_inst (vs ! 0))), v'') \<and>
                   block_insts (gen v'') (insert_block v) =
                     block_insts (gen (vs ! 0)) (insert_block v) @
                       [alloca_inst ty,
                        call_inst func [alloca_value (insert_block v) (next_inst (vs ! 0))]])"
    using len largs callee [folded first] steps slots result block single by blast
  from chain noload returned assigned show ?thesis by blast
qed

theorem call_arguments_not_loaded_witness:
  "(case visit_expression
           (call (3, 1) (symbol_wrapper (3, 1) (two_i32_signature ''a'' ''a_i32_i32''))
              [variable_ref (local_variable 0 ''x'' i32),
               variable_ref (local_variable 1 ''y'' i32)])
           entry_visitor of
      Inl e \<Rightarrow> False
    | Inr (r, v') \<Rightarrow>
        r = instruction_value 0 2 \<and>
        block_insts (gen v') 0 =
          [alloca_inst (int_ty 32), alloca_inst (int_ty 32),
           call_inst 0 [alloca_value 0 0, alloca_value 0 1]] \<and>
        load_insts (gen v') = [[]]) \<and>
   (case visit_statement (ret (Some (variable_ref (local_variable 0 ''x'' i32)))) entry_visitor of
      Inl e \<Rightarrow> False
    | Inr v' \<Rightarrow>
        block_insts (gen v') 0 =
          [alloca_inst (int_ty 32), load_inst (alloca_value 0 0),
           ret_inst (instruction_value 0 1)])"
proof -
  let ?x = "local_variable 0 ''x'' i32"
  let ?y = "local_variable 1 ''y'' i32"
  let ?call = "call (3, 1) (symbol_wrapper (3, 1) (two_i32_signature ''a'' ''a_i32_i32''))
                 [variable_ref ?x, variable_ref ?y]"
  have valid: "cursor_valid entry_visitor"
    by (simp add: cursor_valid_def entry_visitor_def BasicBlock_Create_def)
  have slot: "variables entry_visitor ?x = None"
    by (simp add: entry_visitor_def)
  have ty: "get_llvm_type (gen entry_visitor) (var_type ?x) = Inr (int_ty 32)"
    by (simp add: local_variable_def)
  have "case visit_expression ?call entry_visitor of
          Inl e \<Rightarrow> False
        | Inr (r, v') \<Rightarrow>
            r = instruction_value 0 2 \<and>
            block_insts (gen v') 0 =
              [alloca_inst (int_ty 32), alloca_inst (int_ty 32),
               call_inst 0 [alloca_value 0 0, alloca_value 0 1]]"
    by (simp add: entry_visitor_def two_i32_signature_def local_variable_def lowering_defs
          builder_defs let_values)
  then obtain r v' where run: "visit_expression ?call entry_visitor = Inr (r, v')"
    and r: "r = instruction_value 0 2"
    and blk: "block_insts (gen v') 0 =
              [alloca_inst (int_ty 32), alloca_inst (int_ty 32),
               call_inst 0 [alloca_value 0 0, alloca_value 0 1]]"
    by (auto split: sum.splits)
  have at0: "insert_block entry_visitor = 0" "next_inst entry_visitor = 0"
    "block_insts (gen entry_visitor) 0 = []" "load_insts (gen entry_visitor) = [[]]"
    by (simp_all add: entry_visitor_def builder_defs new_code_generation_def load_insts_def)
  from call_arguments_not_loaded [OF valid slot ty run]
  obtain vr where
    "load_insts (gen v') = load_insts (gen entry_visitor)"
    and "visit_statement (ret (Some (variable_ref ?x))) entry_visitor = Inr vr"
    and "block_insts (gen vr) (insert_block entry_visitor) =
           block_insts (gen entry_visitor) (insert_block entry_visitor) @
             [alloca_inst (int_ty 32),
              load_inst (alloca_value (insert_block entry_visitor) (next_inst entry_visitor)),
              ret_inst (instruction_value (insert_block entry_visitor)
                          (Suc (next_inst entry_visitor)))]"
    by blast
  then show ?thesis using run r blk unfolding at0 by simp
qed

section \<open>Properties of the module assembler\<close>

text \<open>
  C6. When \<open>generate\<close> succeeds on a fresh compilation state, the last function of the
  module is the internal function \<open>entry\<close> of type \<open>void ()\<close>; its body is one block, which
  calls the constructor functions in the order of the list, each without arguments, and
  then returns; and the functions on the list are, in order, the ones registered for the
  function definitions of the module body that carry the attribute \<open>constructor\<close>. With
  three such definitions \<open>f1\<close>, \<open>f2\<close>, \<open>f3\<close> the body is
  \<open>call f1; call f2; call f3; ret void\<close>.
\<close>

theorem generate_entry_function:
  assumes "generate module_body (new_code_generation sz) = Inr g'"
  shows "\<exists>fs. module_functions g' =
               fs @ [\<lparr>fn_name = ''entry'', fn_type = function_ty void_ty [] False,
                       fn_linkage = InternalLinkage\<rparr>] \<and>
              filter (\<lambda>b. bb_parent b = length fs) (module_blocks g') =
               [\<lparr>bb_name = ''entry'', bb_parent = length fs,
                  bb_insts = map (\<lambda>f. call_inst f []) (constructor_functions g') @
                             [ret_void_inst]\<rparr>] \<and>
              list_all (\<lambda>i. i < length fs) (constructor_functions g') \<and>
              map (\<lambda>i. fn_name (fs ! i)) (constructor_functions g') =
                map (\<lambda>f. registered_name (signature f))
                  (filter (\<lambda>f. ''constructor'' \<in> attributes (signature f))
                     (collected_functions module_body))"
proof -
  let ?g0 = "new_code_generation sz"
  from assms obtain g1 g2 where
    ext: "compile_extern_functions (collected_extern_functions module_body) ?g0 = Inr g1"
    and fns: "compile_functions (collected_functions module_body) g1 = Inr g2"
    and res: "g' = gen (CreateRetVoid (call_constructors (constructor_functions g2)
                \<lparr>insert_block = length (module_blocks g2),
                   gen = snd (BasicBlock_Create ''entry'' (length (module_functions g2))
                          (snd (Function_Create (function_ty void_ty [] False) InternalLinkage
                                  ''entry'' g2)))\<rparr>))"
    by (rule generate_Inr)
  let ?fs = "module_functions g2"
  let ?cs = "constructor_functions g2"
  let ?b0 = "\<lparr>insert_block = length (module_blocks g2),
               gen = snd (BasicBlock_Create ''entry'' (length ?fs)
                      (snd (Function_Create (function_ty void_ty [] False) InternalLinkage
                              ''entry'' g2)))\<rparr>"
  have e: "blocks_owned g1" "constructor_functions g1 = []"
    using compile_extern_functions_result [OF ext blocks_owned_new_code_generation]
    by (simp_all add: new_code_generation_def)
  from compile_functions_result [OF fns e(1)] e(2) have
    own: "blocks_owned g2"
    and valid: "list_all (\<lambda>i. i < length ?fs) ?cs"
    and names: "map (\<lambda>i. fn_name (?fs ! i)) ?cs =
                map (\<lambda>f. registered_name (signature f))
                  (filter (\<lambda>f. ''constructor'' \<in> attributes (signature f))
                     (collected_functions module_body))"
    by auto
  have b0: "cursor_valid ?b0"
    by (simp add: cursor_valid_def BasicBlock_Create_def Function_Create_def)
  note calls = call_constructors_result [OF b0, of ?cs]
  have r_fns: "module_functions g' =
      ?fs @ [\<lparr>fn_name = ''entry'', fn_type = function_ty void_ty [] False,
               fn_linkage = InternalLinkage\<rparr>]"
    unfolding res using calls
    by (simp add: CreateRetVoid_def Insert_fields append_inst_fields BasicBlock_Create_def
          Function_Create_def)
  have r_ctors: "constructor_functions g' = ?cs"
    unfolding res using calls
    by (simp add: CreateRetVoid_def Insert_fields append_inst_fields BasicBlock_Create_def
          Function_Create_def)
  have r_blocks: "module_blocks g' = module_blocks g2 @
      [\<lparr>bb_name = ''entry'', bb_parent = length ?fs,
         bb_insts = map (\<lambda>f. call_inst f []) ?cs @ [ret_void_inst]\<rparr>]"
    unfolding res using calls
    by (simp add: CreateRetVoid_def Insert_fields append_inst_def BasicBlock_Create_def
          Function_Create_def)
  have "filter (\<lambda>b. bb_parent b = length ?fs) (module_blocks g2) = []"
    using own by (auto simp: blocks_owned_def list_all_iff filter_empty_conv)
  then have r_body: "filter (\<lambda>b. bb_parent b = length ?fs) (module_blocks g') =
      [\<lparr>bb_name = ''entry'', bb_parent = length ?fs,
         bb_insts = map (\<lambda>f. call_inst f []) ?cs @ [ret_void_inst]\<rparr>]"
    using r_blocks by simp
  show ?thesis
    using r_fns r_body valid names unfolding r_ctors by blast
qed

theorem generate_entry_function_witness:
  "case generate
          [function_decl (void_function ''f1'' {''constructor''} []),
           function_decl (void_function ''f2'' {''constructor''} [ret None]),
           function_decl (void_function ''f3'' {''constructor''} [])]
          (new_code_generation (int_ty 64)) of
     Inl e \<Rightarrow> False
   | Inr g' \<Rightarrow>
       map fn_name (module_functions g') = [''f1'', ''f2'', ''f3'', ''entry''] \<and>
       constructor_functions g' = [0, 1, 2] \<and>
       filter (\<lambda>b. bb_parent b = 3) (module_blocks g') =
         [\<lparr>bb_name = ''entry'', bb_parent = 3,
            bb_insts = [call_inst 0 [], call_inst 1 [], call_inst 2 [], ret_void_inst]\<rparr>]"
proof -
  let ?m = "[function_decl (void_function ''f1'' {''constructor''} []),
             function_decl (void_function ''f2'' {''constructor''} [ret None]),
             function_decl (void_function ''f3'' {''constructor''} [])]"
  let ?g = "new_code_generation (int_ty 64)"
  have "case generate ?m ?g of
          Inl e \<Rightarrow> False
        | Inr g' \<Rightarrow> map fn_name (module_functions g') = [''f1'', ''f2'', ''f3'', ''entry''] \<and>
                     constructor_functions g' = [0, 1, 2]"
    by (simp add: example_defs lowering_defs builder_defs let_values)
  then obtain g' where run: "generate ?m ?g = Inr g'"
    and names: "map fn_name (module_functions g') = [''f1'', ''f2'', ''f3'', ''entry'']"
    and ctors: "constructor_functions g' = [0, 1, 2]"
    by (auto split: sum.splits)
  from generate_entry_function [OF run] obtain fs where
    fs: "module_functions g' =
           fs @ [\<lparr>fn_name = ''entry'', fn_type = function_ty void_ty [] False,
                   fn_linkage = InternalLinkage\<rparr>]"
    and blk: "filter (\<lambda>b. bb_parent b = length fs) (module_blocks g') =
               [\<lparr>bb_name = ''entry'', bb_parent = length fs,
                  bb_insts = map (\<lambda>f. call_inst f []) (constructor_functions g') @
                             [ret_void_inst]\<rparr>]"
    by blast
  have "length (map fn_name (module_functions g')) = 4" by (simp add: names)
  then have "length fs = 3" using fs by simp
  with blk ctors run names show ?thesis by simp
qed

text \<open>
  C9. When \<open>compile_function\<close> succeeds, the function was declared or fetched, and its
  body was lowered from a fresh entry block into some visitor state \<open>v\<close>. If the signature
  carries the attribute \<open>constructor\<close>, a void return is appended to the block the builder
  stands on after the body, whatever that block ends in, and the function is appended to
  the list of constructor functions; otherwise the state after the body is the result and
  the list of constructor functions is as it was.
\<close>

theorem compile_function_constructor_return:
  assumes "compile_function func g = Inr g'"
  shows "\<exists>llvm_func g1 v.
           get_or_declare_function (range_start func) (signature func) g = Inr (llvm_func, g1) \<and>
           visit_statement (body func)
             \<lparr>insert_block = length (module_blocks g1),
                gen = snd (BasicBlock_Create ''entry'' llvm_func g1),
                variables = Map.empty\<rparr> = Inr v \<and>
           (if ''constructor'' \<in> attributes (signature func)
            then block_insts g' (insert_block v) =
                   block_insts (gen v) (insert_block v) @ [ret_void_inst] \<and>
                 constructor_functions g' = constructor_functions g @ [llvm_func]
            else g' = gen v \<and> constructor_functions g' = constructor_functions g)"
proof -
  from assms obtain llvm_func g1 v where
    decl: "get_or_declare_function (range_start func) (signature func) g = Inr (llvm_func, g1)"
    and run: "visit_statement (body func)
           \<lparr>insert_block = length (module_blocks g1),
              gen = snd (BasicBlock_Create ''entry'' llvm_func g1),
              variables = Map.empty\<rparr> = Inr v"
    and res: "g' = (if ''constructor'' \<in> attributes (signature func)
               then (gen (CreateRetVoid v))
                      \<lparr>constructor_functions :=
                         constructor_functions (gen (CreateRetVoid v)) @ [llvm_func]\<rparr>
               else gen v)"
    by (rule compile_function_Inr)
  note steps = compile_function_steps [OF decl run]
  have ctors: "constructor_functions (gen v) = constructor_functions g"
    using steps(2) by (simp add: grows_def)
  have "block_insts g' (insert_block v) = block_insts (gen v) (insert_block v) @ [ret_void_inst]"
    if "''constructor'' \<in> attributes (signature func)"
    using that res block_insts_Insert [OF steps(1), of ret_void_inst]
    by (simp add: CreateRetVoid_def block_insts_def)
  moreover have "constructor_functions g' = constructor_functions g @ [llvm_func]"
    if "''constructor'' \<in> attributes (signature func)"
    using that res ctors by (simp add: CreateRetVoid_def Insert_fields append_inst_fields)
  moreover have "g' = gen v \<and> constructor_functions g' = constructor_functions g"
    if "''constructor'' \<notin> attributes (signature func)"
    using that res ctors by simp
  ultimately show ?thesis using decl run by auto
qed

theorem compile_function_constructor_return_witness:
  "case compile_function (void_function ''init'' {''constructor''} [ret None])
          (new_code_generation (int_ty 64)) of
     Inl e \<Rightarrow> False
   | Inr g' \<Rightarrow> block_insts g' 0 = [ret_void_inst, ret_void_inst] \<and>
                constructor_functions g' = [0]"
proof -
  let ?f = "void_function ''init'' {''constructor''} [ret None]"
  let ?g = "new_code_generation (int_ty 64)"
  obtain g' where run: "compile_function ?f ?g = Inr g'"
    by (simp add: example_defs lowering_defs builder_defs let_values)
  from compile_function_constructor_return [OF run] obtain llvm_func g1 v where
    decl: "get_or_declare_function (range_start ?f) (signature ?f) ?g = Inr (llvm_func, g1)"
    and body: "visit_statement (body ?f)
           \<lparr>insert_block = length (module_blocks g1),
              gen = snd (BasicBlock_Create ''entry'' llvm_func g1),
              variables = Map.empty\<rparr> = Inr v"
    and app: "block_insts g' (insert_block v) =
                block_insts (gen v) (insert_block v) @ [ret_void_inst]"
             "constructor_functions g' = constructor_functions ?g @ [llvm_func]"
    by (auto simp: example_defs)
  from decl have f: "llvm_func = 0" and g1: "module_blocks g1 = []"
    by (auto simp: example_defs lowering_defs builder_defs let_values)
  from body g1 have v: "insert_block v = 0" "block_insts (gen v) 0 = [ret_void_inst]"
    by (auto simp: example_defs builder_defs let_values)
  from app f v run show ?thesis by (simp add: new_code_generation_def)
qed

end
